theory Spec2Isabelle
  imports Complex_Main
begin

section \<open>Conventions\<close>

text \<open>
  The TypeScript sources compute with JavaScript numbers. They are embedded as
  \<^typ>\<open>real\<close>: arithmetic is exact, rounding of IEEE doubles is not modelled, and
  \<^verbatim>\<open>Math.pow(2, x)\<close> is \<^term>\<open>2 powr x\<close>. Mutable objects become records that the
  operations take and return. The audio engine's clock
  (\<^verbatim>\<open>audioContext.currentTime\<close>) and the animation-frame timestamps are inputs
  from the environment and appear as explicit arguments.
\<close>

section \<open>The audio service (\<^verbatim>\<open>services/audioService.ts\<close>)\<close>

datatype sound_type = KICK | BASS | SNARE | CRASH

text \<open>\<^verbatim>\<open>interface ScheduledSound { id; type; time; intensity }\<close>\<close>

record ScheduledSound =
  id_sound :: string
  type_sound :: sound_type
  time_sound :: real
  intensity_sound :: real

text \<open>
  What a voice hands to the Web Audio engine. Every voice builds source nodes, sets the
  gain (and, for an oscillator, the frequency) at its start time, and calls
  \<^verbatim>\<open>start(time)\<close> and \<^verbatim>\<open>stop(time + decay)\<close> on them. From that call on the
  engine owns the node: it starts sounding at \<open>start_at\<close> on the engine clock. The service
  keeps no reference to the nodes it created.
\<close>

datatype source_kind =
    Oscillator real      \<comment> \<open>oscillator, frequency at start\<close>
  | NoiseHighpass real   \<comment> \<open>white-noise buffer through a highpass, cutoff frequency\<close>

record armed_source =
  kind :: source_kind
  gain_at_start :: real
  start_at :: real
  stop_at :: real

record AudioContext =
  armed :: "armed_source list"

text \<open>
  \<^verbatim>\<open>class AudioService\<close>: \<open>masterGain\<close> holds \<^verbatim>\<open>masterGain.gain.value\<close> once the
  gain node exists.
\<close>

record AudioService =
  audioContext :: "AudioContext option"
  masterGain :: "real option"
  scheduledSounds :: "string \<rightharpoonup> real"
  currentSpeed :: real

definition audioService :: AudioService where
  "audioService =
     \<lparr>audioContext = None, masterGain = None, scheduledSounds = Map.empty, currentSpeed = 1\<rparr>"

definition initAudio :: "AudioService \<Rightarrow> AudioService" where
  "initAudio st =
     (case audioContext st of
        None \<Rightarrow> st\<lparr>audioContext := Some \<lparr>armed = []\<rparr>, masterGain := Some 0.3\<rparr>
      | Some ctx \<Rightarrow> st)"

definition setSpeed :: "real \<Rightarrow> AudioService \<Rightarrow> AudioService" where
  "setSpeed speed st = st\<lparr>currentSpeed := speed\<rparr>"

definition getPitchShift :: "AudioService \<Rightarrow> real" where
  "getPitchShift st = 2 powr ((currentSpeed st - 1) * 0.167)"

definition clearScheduledSounds :: "AudioService \<Rightarrow> AudioService" where
  "clearScheduledSounds st = st\<lparr>scheduledSounds := Map.empty\<rparr>"

text \<open>Appending to the sources the engine holds (\<^verbatim>\<open>node.start(time)\<close>).\<close>

definition arm :: "armed_source list \<Rightarrow> AudioContext \<Rightarrow> AudioContext" where
  "arm srcs ctx = ctx\<lparr>armed := armed ctx @ srcs\<rparr>"

definition scheduleKick :: "real \<Rightarrow> real \<Rightarrow> AudioService \<Rightarrow> AudioService" where
  "scheduleKick time intensity st =
     (case (audioContext st, masterGain st) of
        (Some ctx, Some g) \<Rightarrow>
          (let volume = 0.3 + (intensity * 0.7);
               baseFreq = 150 * (1 + intensity * 0.5);
               pitchShift = getPitchShift st;
               frequency = baseFreq * pitchShift
           in st\<lparr>audioContext := Some (arm
                [\<lparr>kind = Oscillator frequency, gain_at_start = volume,
                  start_at = time, stop_at = time + 0.5\<rparr>] ctx)\<rparr>)
      | _ \<Rightarrow> st)"

definition scheduleBass :: "real \<Rightarrow> real \<Rightarrow> AudioService \<Rightarrow> AudioService" where
  "scheduleBass time intensity st =
     (case (audioContext st, masterGain st) of
        (Some ctx, Some g) \<Rightarrow>
          (let volume = 0.24 + (intensity * 0.56);
               baseFreq = 100 * (1 + intensity * 0.5);
               pitchShift = getPitchShift st;
               frequency = baseFreq * pitchShift
           in st\<lparr>audioContext := Some (arm
                [\<lparr>kind = Oscillator frequency, gain_at_start = volume,
                  start_at = time, stop_at = time + 0.4\<rparr>] ctx)\<rparr>)
      | _ \<Rightarrow> st)"

definition scheduleSnare :: "real \<Rightarrow> real \<Rightarrow> AudioService \<Rightarrow> AudioService" where
  "scheduleSnare time intensity st =
     (case (audioContext st, masterGain st) of
        (Some ctx, Some g) \<Rightarrow>
          (let noiseVolume = 0.12 + (intensity * 0.28);
               baseFreq = 180 * (1 + intensity * 0.5);
               pitchShift = getPitchShift st;
               oscVolume = 0.09 + (intensity * 0.21)
           in st\<lparr>audioContext := Some (arm
                [\<lparr>kind = NoiseHighpass 1000, gain_at_start = noiseVolume,
                  start_at = time, stop_at = time + 0.2\<rparr>,
                 \<lparr>kind = Oscillator (baseFreq * pitchShift), gain_at_start = oscVolume,
                  start_at = time, stop_at = time + 0.1\<rparr>] ctx)\<rparr>)
      | _ \<Rightarrow> st)"

definition scheduleCrash :: "real \<Rightarrow> real \<Rightarrow> AudioService \<Rightarrow> AudioService" where
  "scheduleCrash time intensity st =
     (case (audioContext st, masterGain st) of
        (Some ctx, Some g) \<Rightarrow>
          (let filterFreq = 2000 * (1 + intensity * 0.75);
               volume = 0.15 + (intensity * 0.35)
           in st\<lparr>audioContext := Some (arm
                [\<lparr>kind = NoiseHighpass filterFreq, gain_at_start = volume,
                  start_at = time, stop_at = time + 0.5\<rparr>] ctx)\<rparr>)
      | _ \<Rightarrow> st)"

fun scheduleSound :: "sound_type \<Rightarrow> real \<Rightarrow> real \<Rightarrow> AudioService \<Rightarrow> AudioService" where
  "scheduleSound KICK time intensity st = scheduleKick time intensity st"
| "scheduleSound BASS time intensity st = scheduleBass time intensity st"
| "scheduleSound SNARE time intensity st = scheduleSnare time intensity st"
| "scheduleSound CRASH time intensity st = scheduleCrash time intensity st"

text \<open>
  The callback of \<^verbatim>\<open>sounds.forEach\<close> in \<^verbatim>\<open>scheduleSounds\<close>; \<open>now\<close> is
  \<^verbatim>\<open>audioContext.currentTime\<close>, which one call of \<^verbatim>\<open>scheduleSounds\<close> reads
  several times and which does not advance while the call runs.
\<close>

definition scheduleSounds_each ::
  "real \<Rightarrow> real \<Rightarrow> real \<Rightarrow> AudioService \<Rightarrow> ScheduledSound \<Rightarrow> AudioService" where
  "scheduleSounds_each now audioStartTime startTime st sound =
     (let audioTime = audioStartTime + (time_sound sound - startTime)
      in if audioTime > now
         then (let st' = scheduleSound (type_sound sound) audioTime (intensity_sound sound) st
               in st'\<lparr>scheduledSounds := (scheduledSounds st')(id_sound sound \<mapsto> audioTime)\<rparr>)
         else st)"

definition scheduleSounds ::
  "real \<Rightarrow> ScheduledSound list \<Rightarrow> real \<Rightarrow> AudioService \<Rightarrow> AudioService" where
  "scheduleSounds now sounds startTime st =
     (let st1 = initAudio st
      in case audioContext st1 of
           None \<Rightarrow> st1
         | Some ctx \<Rightarrow>
             (let st2 = clearScheduledSounds st1;
                  audioStartTime = now + 0.02
              in foldl (scheduleSounds_each now audioStartTime startTime) st2 sounds))"

definition setVolume :: "real \<Rightarrow> AudioService \<Rightarrow> AudioService" where
  "setVolume volume st =
     (case masterGain st of
        Some g \<Rightarrow> st\<lparr>masterGain := Some (max 0 (min 1 volume))\<rparr>
      | None \<Rightarrow> st)"

text \<open>The sources the engine holds, none before the context exists.\<close>

definition armed_sources :: "AudioService \<Rightarrow> armed_source list" where
  "armed_sources st = (case audioContext st of None \<Rightarrow> [] | Some ctx \<Rightarrow> armed ctx)"

text \<open>The immediate players (\<^verbatim>\<open>playKick\<close> and its siblings, "legacy support").\<close>

definition playKick :: "real \<Rightarrow> AudioService \<Rightarrow> AudioService" where
  "playKick now st =
     (let st1 = initAudio st
      in case audioContext st1 of None \<Rightarrow> st1 | Some ctx \<Rightarrow> scheduleKick now 0.7 st1)"

definition playBass :: "real \<Rightarrow> AudioService \<Rightarrow> AudioService" where
  "playBass now st =
     (let st1 = initAudio st
      in case audioContext st1 of None \<Rightarrow> st1 | Some ctx \<Rightarrow> scheduleBass now 0.7 st1)"

definition playSnare :: "real \<Rightarrow> AudioService \<Rightarrow> AudioService" where
  "playSnare now st =
     (let st1 = initAudio st
      in case audioContext st1 of None \<Rightarrow> st1 | Some ctx \<Rightarrow> scheduleSnare now 0.7 st1)"

definition playCrash :: "real \<Rightarrow> AudioService \<Rightarrow> AudioService" where
  "playCrash now st =
     (let st1 = initAudio st
      in case audioContext st1 of None \<Rightarrow> st1 | Some ctx \<Rightarrow> scheduleCrash now 0.7 st1)"

definition playRhythmNode :: "real \<Rightarrow> sound_type \<Rightarrow> real \<Rightarrow> AudioService \<Rightarrow> AudioService" where
  "playRhythmNode now type intensity st =
     (let st1 = initAudio st
      in case audioContext st1 of
           None \<Rightarrow> st1
         | Some ctx \<Rightarrow>
             (case type of
                KICK \<Rightarrow> scheduleKick now intensity st1
              | BASS \<Rightarrow> scheduleBass now intensity st1
              | SNARE \<Rightarrow> scheduleSnare now intensity st1
              | CRASH \<Rightarrow> scheduleCrash now intensity st1))"

text \<open>
  The public methods of the service as a datatype of calls, each with the engine time
  at which it runs where the method reads it, and a sequence of calls run in order.
\<close>

datatype call =
    SetSpeed real
  | ScheduleSounds real "ScheduledSound list" real
  | ClearScheduledSounds
  | PlayKick real
  | PlayBass real
  | PlaySnare real
  | PlayCrash real
  | PlayRhythmNode real sound_type real
  | SetVolume real

fun perform :: "AudioService \<Rightarrow> call \<Rightarrow> AudioService" where
  "perform st (SetSpeed s) = setSpeed s st"
| "perform st (ScheduleSounds now sounds startTime) = scheduleSounds now sounds startTime st"
| "perform st ClearScheduledSounds = clearScheduledSounds st"
| "perform st (PlayKick now) = playKick now st"
| "perform st (PlayBass now) = playBass now st"
| "perform st (PlaySnare now) = playSnare now st"
| "perform st (PlayCrash now) = playCrash now st"
| "perform st (PlayRhythmNode now type intensity) = playRhythmNode now type intensity st"
| "perform st (SetVolume v) = setVolume v st"

definition performAll :: "call list \<Rightarrow> AudioService" where
  "performAll calls = foldl perform audioService calls"

text \<open>
  The context and the master gain are created together: one exists exactly when the
  other does.
\<close>

definition created_together :: "AudioService \<Rightarrow> bool" where
  "created_together st = ((audioContext st = None) = (masterGain st = None))"

text \<open>Both exist: the voices can reach the engine.\<close>

definition ready :: "AudioService \<Rightarrow> bool" where
  "ready st = (audioContext st \<noteq> None \<and> masterGain st \<noteq> None)"

definition gain_in_range :: "AudioService \<Rightarrow> bool" where
  "gain_in_range st = (case masterGain st of None \<Rightarrow> True | Some g \<Rightarrow> 0 \<le> g \<and> g \<le> 1)"

text \<open>
  The sources one voice arms, read off the service itself: what \<open>scheduleSound\<close> leaves
  in the engine of a freshly initialised service running at speed \<open>s\<close>.
\<close>

definition voice :: "real \<Rightarrow> sound_type \<Rightarrow> real \<Rightarrow> real \<Rightarrow> armed_source list" where
  "voice s type time intensity =
     armed_sources (scheduleSound type time intensity (setSpeed s (initAudio audioService)))"

section \<open>The rhythm visualizer (\<^verbatim>\<open>components/RhythmVisualizer.tsx\<close>)\<close>

text \<open>
  \<^verbatim>\<open>interface RhythmNode\<close>. The nodes arrive as JSON, so a field the type declares can
  be absent at run time; the visualizer guards \<open>intensity\<close> against that, and the field is
  an option here (\<open>None\<close> is \<^verbatim>\<open>undefined\<close>).
\<close>

record RhythmNode =
  id_node :: string
  timestamp :: real
  intensity_node :: "real option"
  type_node :: sound_type
  label_node :: string

text \<open>JavaScript's \<^verbatim>\<open>x || d\<close> on a number that may be absent: \<open>0\<close> is falsy too.\<close>

definition or_default :: "real option \<Rightarrow> real \<Rightarrow> real" where
  "or_default x d = (case x of None \<Rightarrow> d | Some v \<Rightarrow> if v = 0 then d else v)"

text \<open>The callback of \<^verbatim>\<open>nodes.map\<close> in the scheduling effect.\<close>

definition toScheduledSound :: "RhythmNode \<Rightarrow> ScheduledSound" where
  "toScheduledSound node =
     \<lparr>id_sound = id_node node, type_sound = type_node node, time_sound = timestamp node,
      intensity_sound = or_default (intensity_node node) 0.7\<rparr>"

section \<open>The studio (\<^verbatim>\<open>swingsymphony_with_yoc44/components/Studio.tsx\<close>)\<close>

text \<open>
  The fields of \<^verbatim>\<open>SwingData\<close> that playback reads.
\<close>

record SwingData =
  duration :: real
  rhythmTrack :: "RhythmNode list"

text \<open>
  The component state (\<^verbatim>\<open>useState\<close>), its refs (\<^verbatim>\<open>useRef\<close>), the ref of the
  visualizer it renders and the audio service singleton, in one record.
  \<open>frameRequested\<close> says that a \<^verbatim>\<open>requestAnimationFrame\<close> callback is pending
  (\<^verbatim>\<open>requestRef\<close>), and \<open>endedLog\<close> counts the \<^verbatim>\<open>'Animation ended'\<close> lines
  written to the console.
\<close>

record Studio =
  data :: SwingData
  isPlaying :: bool
  currentTime :: real
  speed :: real
  volume :: real
  availableModels :: "string list"
  currentModelIndex :: nat
  isLoadingModel :: bool
  frameRequested :: bool
  startTimeRef :: "real option"
  speedRef :: real
  durationRef :: real
  endedLog :: nat
  scheduledRef :: bool
  audio :: AudioService

text \<open>
  The state after mounting with \<open>initialData\<close>: the mount effect has called
  \<^verbatim>\<open>audioService.setVolume(volume / 100)\<close> and \<^verbatim>\<open>audioService.setSpeed(speed)\<close>.
\<close>

definition mountStudio :: "SwingData \<Rightarrow> string list \<Rightarrow> Studio" where
  "mountStudio initialData models =
     \<lparr>data = initialData, isPlaying = False, currentTime = 0, speed = 1, volume = 30,
      availableModels = models, currentModelIndex = 0, isLoadingModel = False,
      frameRequested = False, startTimeRef = None, speedRef = 1,
      durationRef = duration initialData, endedLog = 0, scheduledRef = False,
      audio = setSpeed 1 (setVolume (30 / 100) audioService)\<rparr>"

text \<open>
  The scheduling effect of the visualizer (\<^verbatim>\<open>useEffect(..., [isPlaying, nodes])\<close>);
  \<open>now\<close> is the engine clock when it runs.
\<close>

definition rhythmEffect :: "real \<Rightarrow> Studio \<Rightarrow> Studio" where
  "rhythmEffect now st =
     (let st1 = (if isPlaying st \<and> \<not> scheduledRef st
                 then st\<lparr>audio := scheduleSounds now (map toScheduledSound (rhythmTrack (data st)))
                                     (currentTime st) (audio st),
                         scheduledRef := True\<rparr>
                 else st)
      in if \<not> isPlaying st1
         then st1\<lparr>audio := clearScheduledSounds (audio st1), scheduledRef := False\<rparr>
         else st1)"

text \<open>The effect on \<^verbatim>\<open>[isPlaying]\<close> of the studio.\<close>

definition isPlayingEffect :: "Studio \<Rightarrow> Studio" where
  "isPlayingEffect st =
     (if isPlaying st
      then st\<lparr>startTimeRef := None, frameRequested := True\<rparr>
      else st\<lparr>frameRequested := False, startTimeRef := None\<rparr>)"

text \<open>Both effects that depend on \<open>isPlaying\<close>, the child's first.\<close>

definition playingChanged :: "real \<Rightarrow> Studio \<Rightarrow> Studio" where
  "playingChanged now st = isPlayingEffect (rhythmEffect now st)"

definition togglePlay :: "real \<Rightarrow> Studio \<Rightarrow> Studio" where
  "togglePlay now st = playingChanged now (st\<lparr>isPlaying := \<not> isPlaying st\<rparr>)"

definition handleVolumeChange :: "real \<Rightarrow> Studio \<Rightarrow> Studio" where
  "handleVolumeChange newVolume st =
     st\<lparr>volume := newVolume, audio := setVolume (newVolume / 100) (audio st)\<rparr>"

text \<open>
  \<^verbatim>\<open>handleSpeedChange\<close>, with the effect on \<^verbatim>\<open>[speed]\<close> that copies the state into
  \<open>speedRef\<close>. No other effect depends on the speed.
\<close>

definition handleSpeedChange :: "real \<Rightarrow> Studio \<Rightarrow> Studio" where
  "handleSpeedChange newSpeed st =
     st\<lparr>speed := newSpeed, audio := setSpeed newSpeed (audio st), speedRef := newSpeed\<rparr>"

text \<open>
  \<^verbatim>\<open>restartPlayback\<close>: the effects on \<open>isPlaying\<close> run only when it changes, that is
  when playback was stopped.
\<close>

definition restartPlayback :: "real \<Rightarrow> Studio \<Rightarrow> Studio" where
  "restartPlayback now st =
     (let st1 = st\<lparr>currentTime := 0, isPlaying := True, startTimeRef := None\<rparr>
      in if isPlaying st then st1 else playingChanged now st1)"

text \<open>
  \<^verbatim>\<open>if (!startTimeRef.current) startTimeRef.current = time\<close>, then the read of the
  ref: the ref counts as unset when it is \<^verbatim>\<open>undefined\<close> or the number \<open>0\<close>.
\<close>

definition startOr :: "real option \<Rightarrow> real \<Rightarrow> real" where
  "startOr r time = (case r of None \<Rightarrow> time | Some t \<Rightarrow> if t = 0 then time else t)"

text \<open>The animation-frame callback; \<open>time\<close> is the frame's timestamp in milliseconds.\<close>

definition animate :: "real \<Rightarrow> Studio \<Rightarrow> Studio" where
  "animate time st =
     (let start = startOr (startTimeRef st) time;
          elapsedMs = time - start;
          elapsedSeconds = elapsedMs / 1000;
          newTime = elapsedSeconds * speedRef st
      in if newTime \<ge> durationRef st
         then st\<lparr>endedLog := endedLog st + 1, currentTime := durationRef st,
                 isPlaying := False, startTimeRef := None, frameRequested := False\<rparr>
         else st\<lparr>startTimeRef := Some start, currentTime := newTime,
                 frameRequested := True\<rparr>)"

text \<open>
  The frame loop of one play run: the browser calls \<open>animate\<close> with each timestamp as
  long as a frame is requested. The effects that follow the frame that ends the run
  (\<open>playingChanged\<close>) touch neither the position nor \<open>isPlaying\<close> and are left to the
  caller.
\<close>

fun run_frames :: "real list \<Rightarrow> Studio \<Rightarrow> Studio" where
  "run_frames [] st = st"
| "run_frames (t # ts) st = (if frameRequested st then run_frames ts (animate t st) else st)"

text \<open>
  \<^verbatim>\<open>loadModelByIndex\<close>, with the awaited \<^verbatim>\<open>getModelData\<close> as the argument
  \<open>fetched\<close> (\<open>None\<close> when it throws) and the load taken as one step. The effects that
  follow the state changes are written out: those on \<open>isPlaying\<close> when playback was
  running, then, after \<^verbatim>\<open>setData\<close>, the one on \<^verbatim>\<open>[data.duration]\<close> and the
  visualizer's on its new \<open>nodes\<close>.
\<close>

definition loadModelByIndex :: "real \<Rightarrow> nat \<Rightarrow> SwingData option \<Rightarrow> Studio \<Rightarrow> Studio" where
  "loadModelByIndex now index fetched st =
     (if availableModels st = [] \<or> isLoadingModel st then st
      else
        (let st1 = st\<lparr>isLoadingModel := True, isPlaying := False, currentTime := 0\<rparr>;
             st2 = (if isPlaying st then playingChanged now st1 else st1)
         in case fetched of
              None \<Rightarrow> st2\<lparr>isLoadingModel := False\<rparr>
            | Some modelData \<Rightarrow>
                (rhythmEffect now
                   (st2\<lparr>data := modelData, currentModelIndex := index,
                        durationRef := duration modelData\<rparr>))
                \<lparr>isLoadingModel := False\<rparr>))"

section \<open>The first studio (\<^verbatim>\<open>swingsymphony/components/Studio.tsx\<close>)\<close>

record Studio0 =
  duration0 :: real
  isPlaying0 :: bool
  currentTime0 :: real
  speed0 :: real
  startTimeRef0 :: "real option"
  frameRequested0 :: bool

text \<open>Its frame callback steps the stored position and rewinds at the end.\<close>

definition animate0 :: "real \<Rightarrow> Studio0 \<Rightarrow> Studio0" where
  "animate0 time st =
     (let start = startOr (startTimeRef0 st) time;
          progress = (time - start) / 1000 * speed0 st;
          newTime = currentTime0 st + (progress * 0.05)
      in if newTime \<ge> duration0 st
         then st\<lparr>currentTime0 := 0, isPlaying0 := False, startTimeRef0 := None,
                 frameRequested0 := False\<rparr>
         else st\<lparr>startTimeRef0 := Some start, currentTime0 := newTime,
                 frameRequested0 := True\<rparr>)"

text \<open>
  Mounting, the play button with the effect on \<^verbatim>\<open>[isPlaying, currentTime]\<close> that
  follows it, and the frame loop of one play run.
\<close>

definition mountStudio0 :: "real \<Rightarrow> Studio0" where
  "mountStudio0 d =
     \<lparr>duration0 = d, isPlaying0 = False, currentTime0 = 0, speed0 = 1,
      startTimeRef0 = None, frameRequested0 = False\<rparr>"

definition togglePlay0 :: "Studio0 \<Rightarrow> Studio0" where
  "togglePlay0 st =
     (if \<not> isPlaying0 st
      then st\<lparr>isPlaying0 := True, frameRequested0 := True\<rparr>
      else st\<lparr>isPlaying0 := False, frameRequested0 := False, startTimeRef0 := None\<rparr>)"

fun run_frames0 :: "real list \<Rightarrow> Studio0 \<Rightarrow> Studio0" where
  "run_frames0 [] st = st"
| "run_frames0 (t # ts) st = (if frameRequested0 st then run_frames0 ts (animate0 t st) else st)"

section \<open>The sample recording (\<^verbatim>\<open>constants.ts\<close>)\<close>

text \<open>\<^verbatim>\<open>PRO_SWING_DATA\<close>: its duration and rhythm track.\<close>

definition PRO_SWING_DATA :: SwingData where
  "PRO_SWING_DATA =
     \<lparr>duration = 2.5,
      rhythmTrack =
        [\<lparr>id_node = ''p1'', timestamp = 0.5, intensity_node = Some 0.8, type_node = KICK,
          label_node = ''Leg Load''\<rparr>,
         \<lparr>id_node = ''p2'', timestamp = 0.9, intensity_node = Some 0.9, type_node = BASS,
          label_node = ''Hip Fire''\<rparr>,
         \<lparr>id_node = ''p3'', timestamp = 1.2, intensity_node = Some 0.9, type_node = SNARE,
          label_node = ''Shoulder Turn''\<rparr>,
         \<lparr>id_node = ''p4'', timestamp = 1.4, intensity_node = Some 1.0, type_node = CRASH,
          label_node = ''Contact''\<rparr>]\<rparr>"

section \<open>Facts about the audio service\<close>

lemma armed_sources_scheduleKick:
  "audioContext st = Some ctx \<Longrightarrow> masterGain st = Some g \<Longrightarrow>
   armed_sources (scheduleKick t i st) = armed ctx @
     [\<lparr>kind = Oscillator (150 * (1 + i * 0.5) * 2 powr ((currentSpeed st - 1) * 0.167)),
       gain_at_start = 0.3 + i * 0.7, start_at = t, stop_at = t + 0.5\<rparr>]"
  by (simp add: scheduleKick_def armed_sources_def arm_def getPitchShift_def Let_def)

lemma armed_sources_scheduleBass:
  "audioContext st = Some ctx \<Longrightarrow> masterGain st = Some g \<Longrightarrow>
   armed_sources (scheduleBass t i st) = armed ctx @
     [\<lparr>kind = Oscillator (100 * (1 + i * 0.5) * 2 powr ((currentSpeed st - 1) * 0.167)),
       gain_at_start = 0.24 + i * 0.56, start_at = t, stop_at = t + 0.4\<rparr>]"
  by (simp add: scheduleBass_def armed_sources_def arm_def getPitchShift_def Let_def)

lemma armed_sources_scheduleSnare:
  "audioContext st = Some ctx \<Longrightarrow> masterGain st = Some g \<Longrightarrow>
   armed_sources (scheduleSnare t i st) = armed ctx @
     [\<lparr>kind = NoiseHighpass 1000, gain_at_start = 0.12 + i * 0.28, start_at = t,
       stop_at = t + 0.2\<rparr>,
      \<lparr>kind = Oscillator (180 * (1 + i * 0.5) * 2 powr ((currentSpeed st - 1) * 0.167)),
       gain_at_start = 0.09 + i * 0.21, start_at = t, stop_at = t + 0.1\<rparr>]"
  by (simp add: scheduleSnare_def armed_sources_def arm_def getPitchShift_def Let_def)

lemma armed_sources_scheduleCrash:
  "audioContext st = Some ctx \<Longrightarrow> masterGain st = Some g \<Longrightarrow>
   armed_sources (scheduleCrash t i st) = armed ctx @
     [\<lparr>kind = NoiseHighpass (2000 * (1 + i * 0.75)), gain_at_start = 0.15 + i * 0.35,
       start_at = t, stop_at = t + 0.5\<rparr>]"
  by (simp add: scheduleCrash_def armed_sources_def arm_def Let_def)

lemma voice_simps:
  "voice s KICK t i = [\<lparr>kind = Oscillator (150 * (1 + i * 0.5) * 2 powr ((s - 1) * 0.167)),
       gain_at_start = 0.3 + i * 0.7, start_at = t, stop_at = t + 0.5\<rparr>]"
  "voice s BASS t i = [\<lparr>kind = Oscillator (100 * (1 + i * 0.5) * 2 powr ((s - 1) * 0.167)),
       gain_at_start = 0.24 + i * 0.56, start_at = t, stop_at = t + 0.4\<rparr>]"
  "voice s SNARE t i = [\<lparr>kind = NoiseHighpass 1000, gain_at_start = 0.12 + i * 0.28, start_at = t,
       stop_at = t + 0.2\<rparr>,
      \<lparr>kind = Oscillator (180 * (1 + i * 0.5) * 2 powr ((s - 1) * 0.167)),
       gain_at_start = 0.09 + i * 0.21, start_at = t, stop_at = t + 0.1\<rparr>]"
  "voice s CRASH t i = [\<lparr>kind = NoiseHighpass (2000 * (1 + i * 0.75)), gain_at_start = 0.15 + i * 0.35,
       start_at = t, stop_at = t + 0.5\<rparr>]"
  by (simp_all add: voice_def initAudio_def audioService_def setSpeed_def
      scheduleKick_def scheduleBass_def scheduleSnare_def scheduleCrash_def
      armed_sources_def arm_def getPitchShift_def Let_def)

lemma readyE:
  assumes "ready st"
  obtains ctx g where "audioContext st = Some ctx" "masterGain st = Some g"
  using assms by (auto simp: ready_def)

lemma scheduleSound_armed:
  assumes "ready st"
  shows "armed_sources (scheduleSound ty t i st) = armed_sources st @ voice (currentSpeed st) ty t i"
proof -
  obtain ctx g where r: "audioContext st = Some ctx" "masterGain st = Some g"
    using assms by (rule readyE)
  have a: "armed_sources st = armed ctx" using r by (simp add: armed_sources_def)
  show ?thesis
    by (cases ty)
       (simp_all only: scheduleSound.simps voice_simps a armed_sources_scheduleKick [OF r]
          armed_sources_scheduleBass [OF r] armed_sources_scheduleSnare [OF r]
          armed_sources_scheduleCrash [OF r])
qed

lemma scheduleSound_fields:
  "scheduledSounds (scheduleSound ty t i st) = scheduledSounds st"
  "masterGain (scheduleSound ty t i st) = masterGain st"
  "currentSpeed (scheduleSound ty t i st) = currentSpeed st"
  by (cases ty; simp add: scheduleKick_def scheduleBass_def scheduleSnare_def scheduleCrash_def
        Let_def split: option.splits)+

lemma scheduleSound_ready: "ready st \<Longrightarrow> ready (scheduleSound ty t i st)"
  by (cases ty; auto simp: ready_def scheduleKick_def scheduleBass_def scheduleSnare_def
        scheduleCrash_def Let_def)

lemma each_speed: "currentSpeed (scheduleSounds_each now a p st sound) = currentSpeed st"
  by (simp add: scheduleSounds_each_def Let_def scheduleSound_fields)

lemma each_ready: "ready st \<Longrightarrow> ready (scheduleSounds_each now a p st sound)"
  using scheduleSound_ready [of st "type_sound sound" "a + (time_sound sound - p)" "intensity_sound sound"]
  by (simp add: scheduleSounds_each_def Let_def ready_def)

lemma each_armed:
  assumes "ready st"
  shows "armed_sources (scheduleSounds_each now a p st sound) =
         armed_sources st @
           (if a + (time_sound sound - p) > now
            then voice (currentSpeed st) (type_sound sound) (a + (time_sound sound - p))
                   (intensity_sound sound)
            else [])"
proof -
  have "armed_sources (st'\<lparr>scheduledSounds := m\<rparr>) = armed_sources st'" for st' m
    by (simp add: armed_sources_def)
  then show ?thesis
    by (simp add: scheduleSounds_each_def Let_def scheduleSound_armed [OF assms])
qed

lemma each_booked:
  "scheduledSounds (scheduleSounds_each now a p st sound) =
     (if a + (time_sound sound - p) > now
      then (scheduledSounds st)(id_sound sound \<mapsto> a + (time_sound sound - p))
      else scheduledSounds st)"
  by (simp add: scheduleSounds_each_def Let_def scheduleSound_fields)

lemma foldl_each_speed:
  "currentSpeed (foldl (scheduleSounds_each now a p) st sounds) = currentSpeed st"
  by (induction sounds arbitrary: st) (simp_all add: each_speed)

lemma foldl_each_ready:
  "ready st \<Longrightarrow> ready (foldl (scheduleSounds_each now a p) st sounds)"
  by (induction sounds arbitrary: st) (simp_all add: each_ready)

lemma foldl_each_armed:
  assumes "ready st"
  shows "armed_sources (foldl (scheduleSounds_each now a p) st sounds) =
         armed_sources st @
           concat (map (\<lambda>sound. if a + (time_sound sound - p) > now
                               then voice (currentSpeed st) (type_sound sound)
                                      (a + (time_sound sound - p)) (intensity_sound sound)
                               else []) sounds)"
  using assms
proof (induction sounds arbitrary: st)
  case Nil
  then show ?case by simp
next
  case (Cons x xs)
  show ?case
    using Cons.IH [OF each_ready [OF Cons.prems, of now a p x]]
    by (simp add: each_speed each_armed [OF Cons.prems] cong: if_cong)
qed

lemma foldl_each_booked_other:
  assumes "k \<notin> id_sound ` set sounds"
  shows "scheduledSounds (foldl (scheduleSounds_each now a p) st sounds) k = scheduledSounds st k"
  using assms
proof (induction sounds arbitrary: st)
  case Nil
  then show ?case by simp
next
  case (Cons x xs)
  then show ?case by (simp add: each_booked)
qed

lemma foldl_each_booked:
  assumes "sound \<in> set sounds" "distinct (map id_sound sounds)" "a + (time_sound sound - p) > now"
  shows "scheduledSounds (foldl (scheduleSounds_each now a p) st sounds) (id_sound sound) =
         Some (a + (time_sound sound - p))"
  using assms
proof (induction sounds arbitrary: st)
  case Nil
  then show ?case by simp
next
  case (Cons x xs)
  show ?case
  proof (cases "sound = x")
    case True
    have "id_sound x \<notin> id_sound ` set xs" using Cons.prems(2) by simp
    then show ?thesis
      using True Cons.prems(3) by (simp add: foldl_each_booked_other each_booked)
  next
    case False
    then have "sound \<in> set xs" using Cons.prems(1) by simp
    then show ?thesis using Cons.IH Cons.prems by simp
  qed
qed

lemma initAudio_ready:
  assumes "created_together st"
  shows "ready (initAudio st)"
  using assms
  by (cases "audioContext st"; cases "masterGain st")
     (simp_all add: initAudio_def created_together_def ready_def)

lemma initAudio_fields:
  "currentSpeed (initAudio st) = currentSpeed st"
  "armed_sources (initAudio st) = armed_sources st"
  "scheduledSounds (initAudio st) = scheduledSounds st"
  by (cases "audioContext st"; simp add: initAudio_def armed_sources_def)+

lemma clear_fields:
  "currentSpeed (clearScheduledSounds st) = currentSpeed st"
  "armed_sources (clearScheduledSounds st) = armed_sources st"
  "masterGain (clearScheduledSounds st) = masterGain st"
  "audioContext (clearScheduledSounds st) = audioContext st"
  "ready (clearScheduledSounds st) = ready st"
  by (simp_all add: clearScheduledSounds_def armed_sources_def ready_def)

lemma scheduleSounds_unfold:
  assumes "created_together st"
  shows "scheduleSounds now sounds p st =
         foldl (scheduleSounds_each now (now + 0.02) p) (clearScheduledSounds (initAudio st)) sounds"
proof -
  obtain ctx where "audioContext (initAudio st) = Some ctx"
    using initAudio_ready [OF assms] by (auto simp: ready_def)
  then show ?thesis by (simp add: scheduleSounds_def Let_def)
qed

lemma scheduleSounds_armed:
  assumes "created_together st"
  shows "armed_sources (scheduleSounds now sounds p st) =
         armed_sources st @
           concat (map (\<lambda>sound. if now + 0.02 + (time_sound sound - p) > now
                               then voice (currentSpeed st) (type_sound sound)
                                      (now + 0.02 + (time_sound sound - p)) (intensity_sound sound)
                               else []) sounds)"
proof -
  have r: "ready (clearScheduledSounds (initAudio st))"
    using initAudio_ready [OF assms] by (simp add: clear_fields)
  show ?thesis
    unfolding scheduleSounds_unfold [OF assms] foldl_each_armed [OF r] clear_fields initAudio_fields ..
qed

lemma scheduleSounds_booked:
  assumes "created_together st" "sound \<in> set sounds" "distinct (map id_sound sounds)"
    "now + 0.02 + (time_sound sound - p) > now"
  shows "scheduledSounds (scheduleSounds now sounds p st) (id_sound sound) =
         Some (now + 0.02 + (time_sound sound - p))"
  unfolding scheduleSounds_unfold [OF assms(1)]
  by (rule foldl_each_booked [OF assms(2,3,4)])

lemma foldl_each_gain:
  "masterGain (foldl (scheduleSounds_each now a p) st sounds) = masterGain st"
  by (induction sounds arbitrary: st)
     (simp_all add: scheduleSounds_each_def Let_def scheduleSound_fields)

lemma initAudio_gain_in_range: "gain_in_range st \<Longrightarrow> gain_in_range (initAudio st)"
  by (cases "audioContext st") (simp_all add: initAudio_def gain_in_range_def)

lemma scheduleSounds_gain: "masterGain (scheduleSounds now sounds p st) = masterGain (initAudio st)"
  by (simp add: scheduleSounds_def Let_def foldl_each_gain clearScheduledSounds_def
      split: option.splits)

lemma schedule_gain:
  "masterGain (scheduleKick t i st) = masterGain st"
  "masterGain (scheduleBass t i st) = masterGain st"
  "masterGain (scheduleSnare t i st) = masterGain st"
  "masterGain (scheduleCrash t i st) = masterGain st"
  using scheduleSound_fields(2) [of KICK t i st] scheduleSound_fields(2) [of BASS t i st]
    scheduleSound_fields(2) [of SNARE t i st] scheduleSound_fields(2) [of CRASH t i st]
  by simp_all

lemma play_gain:
  "masterGain (playKick now st) = masterGain (initAudio st)"
  "masterGain (playBass now st) = masterGain (initAudio st)"
  "masterGain (playSnare now st) = masterGain (initAudio st)"
  "masterGain (playCrash now st) = masterGain (initAudio st)"
  "masterGain (playRhythmNode now ty i st) = masterGain (initAudio st)"
  by (simp_all add: playKick_def playBass_def playSnare_def playCrash_def playRhythmNode_def
      Let_def schedule_gain split: option.splits sound_type.splits)

lemma setVolume_gain_in_range: "gain_in_range (setVolume v st)"
  by (cases "masterGain st") (simp_all add: setVolume_def gain_in_range_def)

lemma perform_gain_in_range: "gain_in_range st \<Longrightarrow> gain_in_range (perform st c)"
proof (cases c)
  case (SetVolume v)
  then show ?thesis by (simp add: setVolume_gain_in_range)
next
  case (SetSpeed s)
  assume "gain_in_range st"
  then show ?thesis using SetSpeed by (simp add: gain_in_range_def setSpeed_def)
next
  case ClearScheduledSounds
  assume "gain_in_range st"
  then show ?thesis using ClearScheduledSounds
    by (simp add: gain_in_range_def clearScheduledSounds_def)
qed (use initAudio_gain_in_range [of st] in
      \<open>simp_all add: gain_in_range_def scheduleSounds_gain play_gain\<close>)

lemma foldl_perform_gain_in_range:
  "gain_in_range st \<Longrightarrow> gain_in_range (foldl perform st calls)"
  by (induction calls arbitrary: st) (simp_all add: perform_gain_in_range)

lemma voice_start_at: "src \<in> set (voice s ty t i) \<Longrightarrow> start_at src = t"
  by (cases ty) (auto simp: voice_simps)

lemma voice_nonempty: "voice s ty t i \<noteq> []"
  by (cases ty) (simp_all add: voice_simps)

lemma scheduleSounds_voice_armed:
  assumes "created_together st" "sound \<in> set sounds" "p \<le> time_sound sound"
  shows "set (voice (currentSpeed st) (type_sound sound) (now + 0.02 + (time_sound sound - p))
              (intensity_sound sound))
         \<subseteq> set (armed_sources (scheduleSounds now sounds p st))"
proof -
  have b: "now + 0.02 + (time_sound sound - p) > now" using assms(3) by simp
  show ?thesis
    unfolding scheduleSounds_armed [OF assms(1)]
    using assms(2) b by (auto simp del: add_less_same_cancel1 less_add_same_cancel1)
qed

lemma created_together_setSpeed: "created_together (setSpeed s st) = created_together st"
  by (simp add: created_together_def setSpeed_def)

lemma created_together_mount: "created_together (audio (mountStudio d ms))"
  by (simp add: mountStudio_def created_together_def setSpeed_def setVolume_def audioService_def)

section \<open>Facts about the studio\<close>

lemma togglePlay_start:
  assumes "\<not> isPlaying st" "\<not> scheduledRef st"
  shows "audio (togglePlay now st) =
           scheduleSounds now (map toScheduledSound (rhythmTrack (data st))) (currentTime st) (audio st)"
    and "isPlaying (togglePlay now st)" and "frameRequested (togglePlay now st)"
    and "startTimeRef (togglePlay now st) = None"
    and "scheduledRef (togglePlay now st)"
    and "currentTime (togglePlay now st) = currentTime st"
    and "speedRef (togglePlay now st) = speedRef st"
    and "durationRef (togglePlay now st) = durationRef st"
    and "endedLog (togglePlay now st) = endedLog st"
  using assms
  by (simp_all add: togglePlay_def playingChanged_def rhythmEffect_def isPlayingEffect_def Let_def)

lemma togglePlay_pause:
  assumes "isPlaying st"
  shows "audio (togglePlay now st) = clearScheduledSounds (audio st)"
    and "\<not> isPlaying (togglePlay now st)"
  using assms
  by (simp_all add: togglePlay_def playingChanged_def rhythmEffect_def isPlayingEffect_def Let_def)

lemma mountStudio_fields:
  "\<not> isPlaying (mountStudio d ms)" "\<not> scheduledRef (mountStudio d ms)"
  "currentTime (mountStudio d ms) = 0" "data (mountStudio d ms) = d"
  "armed_sources (audio (mountStudio d ms)) = []"
  "currentSpeed (audio (mountStudio d ms)) = 1"
  by (simp_all add: mountStudio_def setSpeed_def setVolume_def audioService_def armed_sources_def)

text \<open>Frames never touch the audio service or the visualizer's flag.\<close>

lemma animate_audio:
  "audio (animate t st) = audio st" "scheduledRef (animate t st) = scheduledRef st"
  by (simp_all add: animate_def Let_def)

lemma run_frames_audio:
  "audio (run_frames ts st) = audio st \<and> scheduledRef (run_frames ts st) = scheduledRef st"
  by (induction ts arbitrary: st) (simp_all add: animate_audio)

text \<open>The commit of the sample recording from position \<open>0\<close> at engine time \<open>0\<close>.\<close>

lemma PRO_commit_start_times:
  assumes "created_together A"
  shows "map start_at (armed_sources
           (scheduleSounds 0 (map toScheduledSound (rhythmTrack PRO_SWING_DATA)) 0 A)) =
         map start_at (armed_sources A) @ [0.52, 0.92, 1.22, 1.22, 1.42]"
  unfolding scheduleSounds_armed [OF assms]
  by (simp add: PRO_SWING_DATA_def toScheduledSound_def or_default_def voice_simps)

lemma PRO_commit_crash:
  assumes "created_together A"
  shows "scheduledSounds
           (scheduleSounds 0 (map toScheduledSound (rhythmTrack PRO_SWING_DATA)) 0 A) ''p4'' =
         Some 1.42"
proof -
  define p4 where "p4 = \<lparr>id_sound = ''p4'', type_sound = CRASH, time_sound = 1.4,
    intensity_sound = 1\<rparr>"
  have "scheduledSounds
          (scheduleSounds 0 (map toScheduledSound (rhythmTrack PRO_SWING_DATA)) 0 A) (id_sound p4) =
        Some (0 + 0.02 + (time_sound p4 - 0))"
    by (rule scheduleSounds_booked [OF assms])
       (simp_all add: PRO_SWING_DATA_def toScheduledSound_def or_default_def p4_def)
  then show ?thesis by (simp add: p4_def)
qed

lemma ready_created_together: "ready st \<Longrightarrow> created_together st"
  by (auto simp: ready_def created_together_def)

lemma scheduleSounds_ready:
  assumes "created_together st"
  shows "ready (scheduleSounds now sounds p st)"
  unfolding scheduleSounds_unfold [OF assms]
  by (rule foldl_each_ready) (simp add: clear_fields initAudio_ready [OF assms])

lemma togglePlay_data: "data (togglePlay now st) = data st"
  by (simp add: togglePlay_def playingChanged_def rhythmEffect_def isPlayingEffect_def Let_def)

lemma togglePlay_pause_flag: "isPlaying st \<Longrightarrow> \<not> scheduledRef (togglePlay now st)"
  by (simp add: togglePlay_def playingChanged_def rhythmEffect_def isPlayingEffect_def Let_def)

lemma run_frames_data: "data (run_frames ts st) = data st"
  by (induction ts arbitrary: st) (simp_all add: animate_def Let_def)

lemma foldl_each_unbooked:
  assumes "\<forall>sound \<in> set sounds. id_sound sound = k \<longrightarrow> \<not> a + (time_sound sound - p) > now"
  shows "scheduledSounds (foldl (scheduleSounds_each now a p) st sounds) k = scheduledSounds st k"
  using assms
proof (induction sounds arbitrary: st)
  case Nil
  then show ?case by simp
next
  case (Cons x xs)
  then show ?case by (auto simp: each_booked)
qed

section \<open>The voices\<close>

text \<open>
  C6. Once the context and the master gain exist, a KICK triggered at time \<open>t\<close> with
  intensity \<open>I\<close> in \<open>[0, 1]\<close> while the service runs at speed \<open>s\<close> arms exactly one
  oscillator, with amplitude \<open>0.30 + 0.70 I\<close> and start frequency
  \<open>150 (1 + 0.5 I) pitchShift\<close>, where \<open>pitchShift = 2 powr ((s - 1) 0.167)\<close>: amplitude
  \<open>1\<close> and \<open>225 pitchShift\<close> at \<open>I = 1\<close>, amplitude \<open>0.3\<close> and \<open>150 pitchShift\<close> at
  \<open>I = 0\<close>. BASS, SNARE and CRASH follow their rows of the table in the same way, and the
  KICK amplitude stays within \<open>[0.3, 1]\<close>.
\<close>

theorem voice_parameter_table:
  assumes "audioContext st = Some ctx" and "masterGain st = Some g"
    and "0 \<le> I" and "I \<le> 1"
  shows
    "armed_sources (scheduleSound KICK t I (setSpeed s st)) = armed ctx @
       [\<lparr>kind = Oscillator (150 * (1 + 0.5 * I) * 2 powr ((s - 1) * 0.167)),
         gain_at_start = 0.30 + 0.70 * I, start_at = t, stop_at = t + 0.5\<rparr>] \<and>
     armed_sources (scheduleSound KICK t 1 (setSpeed s st)) = armed ctx @
       [\<lparr>kind = Oscillator (225 * 2 powr ((s - 1) * 0.167)),
         gain_at_start = 1, start_at = t, stop_at = t + 0.5\<rparr>] \<and>
     armed_sources (scheduleSound KICK t 0 (setSpeed s st)) = armed ctx @
       [\<lparr>kind = Oscillator (150 * 2 powr ((s - 1) * 0.167)),
         gain_at_start = 0.3, start_at = t, stop_at = t + 0.5\<rparr>] \<and>
     armed_sources (scheduleSound BASS t I (setSpeed s st)) = armed ctx @
       [\<lparr>kind = Oscillator (100 * (1 + 0.5 * I) * 2 powr ((s - 1) * 0.167)),
         gain_at_start = 0.24 + 0.56 * I, start_at = t, stop_at = t + 0.4\<rparr>] \<and>
     armed_sources (scheduleSound SNARE t I (setSpeed s st)) = armed ctx @
       [\<lparr>kind = NoiseHighpass 1000, gain_at_start = 0.12 + 0.28 * I,
         start_at = t, stop_at = t + 0.2\<rparr>,
        \<lparr>kind = Oscillator (180 * (1 + 0.5 * I) * 2 powr ((s - 1) * 0.167)),
         gain_at_start = 0.09 + 0.21 * I, start_at = t, stop_at = t + 0.1\<rparr>] \<and>
     armed_sources (scheduleSound CRASH t I (setSpeed s st)) = armed ctx @
       [\<lparr>kind = NoiseHighpass (2000 * (1 + 0.75 * I)), gain_at_start = 0.15 + 0.35 * I,
         start_at = t, stop_at = t + 0.5\<rparr>] \<and>
     0.3 \<le> 0.30 + 0.70 * I \<and> 0.30 + 0.70 * I \<le> 1"
proof -
  have r: "audioContext (setSpeed s st) = Some ctx" "masterGain (setSpeed s st) = Some g"
    "currentSpeed (setSpeed s st) = s"
    using assms(1,2) by (simp_all add: setSpeed_def)
  show ?thesis
    using assms(3,4)
    by (simp add: armed_sources_scheduleKick [OF r(1,2)] armed_sources_scheduleBass [OF r(1,2)]
        armed_sources_scheduleSnare [OF r(1,2)] armed_sources_scheduleCrash [OF r(1,2)] r(3))
qed

theorem voice_parameter_table_witness:
  "audioContext (initAudio audioService) = Some \<lparr>armed = []\<rparr> \<and>
   masterGain (initAudio audioService) = Some 0.3 \<and> (0::real) \<le> 1 / 2 \<and> (1::real) / 2 \<le> 1 \<and>
   armed_sources (scheduleSound KICK 2 (1 / 2) (setSpeed 1 (initAudio audioService))) =
     [\<lparr>kind = Oscillator 187.5, gain_at_start = 0.65, start_at = 2, stop_at = 2.5\<rparr>] \<and>
   armed_sources (scheduleSound KICK 2 1 (setSpeed 1 (initAudio audioService))) =
     [\<lparr>kind = Oscillator 225, gain_at_start = 1, start_at = 2, stop_at = 2.5\<rparr>]"
proof -
  have h: "audioContext (initAudio audioService) = Some \<lparr>armed = []\<rparr>"
    "masterGain (initAudio audioService) = Some 0.3"
    by (simp_all add: initAudio_def audioService_def)
  have i: "(0::real) \<le> 1 / 2" "(1::real) / 2 \<le> 1" by simp_all
  show ?thesis
    using voice_parameter_table [OF h i, of 2 1] h by simp
qed

section \<open>The master gain\<close>

text \<open>
  C10. The master gain is created with the value \<open>0.3\<close>; once it exists,
  \<open>setVolume v\<close> sets it to \<open>min 1 (max 0 v)\<close> for every real \<open>v\<close>; and after any
  sequence of calls of the service's public methods, starting from the fresh service, the
  gain (if created) lies in \<open>[0, 1]\<close>.
\<close>

theorem master_gain_clamped:
  assumes "masterGain st = Some g"
  shows "masterGain (initAudio audioService) = Some 0.3 \<and>
         masterGain (setVolume v st) = Some (min 1 (max 0 v)) \<and>
         gain_in_range (setVolume v st) \<and>
         gain_in_range (performAll calls)"
proof -
  have "gain_in_range audioService" by (simp add: gain_in_range_def audioService_def)
  then have "gain_in_range (performAll calls)"
    unfolding performAll_def by (rule foldl_perform_gain_in_range)
  moreover have "masterGain (setVolume v st) = Some (min 1 (max 0 v))"
    using assms by (simp add: setVolume_def min_def max_def)
  moreover have "masterGain (initAudio audioService) = Some 0.3"
    by (simp add: initAudio_def audioService_def)
  ultimately show ?thesis by (simp add: setVolume_gain_in_range)
qed

theorem master_gain_clamped_witness:
  "masterGain (initAudio audioService) = Some 0.3 \<and>
   masterGain (setVolume 1.7 (initAudio audioService)) = Some 1 \<and>
   masterGain (setVolume (- 4) (initAudio audioService)) = Some 0 \<and>
   masterGain (setVolume 0.8 (initAudio audioService)) = Some 0.8 \<and>
   gain_in_range (performAll [SetVolume 7, PlayKick 0, SetVolume 7, SetVolume (- 1)])"
proof -
  have h: "masterGain (initAudio audioService) = Some 0.3"
    by (simp add: initAudio_def audioService_def)
  show ?thesis
    using master_gain_clamped [OF h, of "1.7" "[SetVolume 7, PlayKick 0, SetVolume 7, SetVolume (- 1)]"]
      master_gain_clamped [OF h, of "- 4" "[]"] master_gain_clamped [OF h, of "0.8" "[]"]
    by simp
qed

section \<open>Booking\<close>

text \<open>
  C1 (as the code has it). A commit at playback position \<open>p0\<close> and engine time \<open>t0\<close>
  books every event at song time \<open>e \<ge> p0\<close> at engine time \<open>t0 + 0.02 + (e - p0)\<close>,
  whatever the speed \<open>s\<close> of the service: the speed enters the pitch of the voices only,
  and the offset \<open>e - p0\<close> is not divided by it. The booking is recorded under the
  event's id (ids distinct) and a source of the event's voice is armed with that start
  time. For the sample recording played from position \<open>0\<close> at speed \<open>0.5\<close>, the CRASH
  at \<open>1.4\<close> is booked \<open>1.42\<close> seconds after the commit.
\<close>

theorem booked_time_ignores_speed:
  assumes "created_together st" and "sound \<in> set sounds" and "p0 \<le> time_sound sound"
    and "distinct (map id_sound sounds)"
  shows "scheduledSounds (scheduleSounds t0 sounds p0 (setSpeed s st)) (id_sound sound) =
           Some (t0 + 0.02 + (time_sound sound - p0)) \<and>
         (\<exists>src \<in> set (armed_sources (scheduleSounds t0 sounds p0 (setSpeed s st))).
            src \<in> set (voice s (type_sound sound) (t0 + 0.02 + (time_sound sound - p0))
                         (intensity_sound sound)) \<and>
            start_at src = t0 + 0.02 + (time_sound sound - p0)) \<and>
         scheduledSounds
           (audio (togglePlay t0 (handleSpeedChange 0.5 (mountStudio PRO_SWING_DATA models))))
           ''p4'' = Some (t0 + 0.02 + 1.4)"
proof -
  let ?st = "setSpeed s st"
  let ?at = "t0 + 0.02 + (time_sound sound - p0)"
  have c: "created_together ?st" using assms(1) by (simp add: created_together_setSpeed)
  have b: "?at > t0" using assms(3) by simp
  have 1: "scheduledSounds (scheduleSounds t0 sounds p0 ?st) (id_sound sound) = Some ?at"
    by (rule scheduleSounds_booked [OF c assms(2) assms(4) b])
  obtain src where s: "src \<in> set (voice s (type_sound sound) ?at (intensity_sound sound))"
    using voice_nonempty [of s "type_sound sound" ?at "intensity_sound sound"]
    by (cases "voice s (type_sound sound) ?at (intensity_sound sound)") auto
  have "currentSpeed ?st = s" by (simp add: setSpeed_def)
  then have "src \<in> set (armed_sources (scheduleSounds t0 sounds p0 ?st))"
    using scheduleSounds_voice_armed [OF c assms(2) assms(3), of t0] s by auto
  then have 2: "\<exists>src \<in> set (armed_sources (scheduleSounds t0 sounds p0 ?st)).
            src \<in> set (voice s (type_sound sound) ?at (intensity_sound sound)) \<and>
            start_at src = ?at"
    using s voice_start_at [OF s] by blast
  define M where "M = handleSpeedChange 0.5 (mountStudio PRO_SWING_DATA models)"
  have m: "\<not> isPlaying M" "\<not> scheduledRef M" "currentTime M = 0"
    "rhythmTrack (data M) = rhythmTrack PRO_SWING_DATA"
    "created_together (audio M)"
    unfolding M_def
    by (simp_all add: handleSpeedChange_def mountStudio_def created_together_def setSpeed_def
        setVolume_def audioService_def)
  define p4 where "p4 = \<lparr>id_sound = ''p4'', type_sound = CRASH, time_sound = 1.4,
    intensity_sound = 1\<rparr>"
  have "scheduledSounds (scheduleSounds t0 (map toScheduledSound (rhythmTrack PRO_SWING_DATA)) 0
          (audio M)) (id_sound p4) = Some (t0 + 0.02 + (time_sound p4 - 0))"
    by (rule scheduleSounds_booked [OF m(5)])
       (simp_all add: PRO_SWING_DATA_def toScheduledSound_def or_default_def p4_def)
  then have "scheduledSounds (scheduleSounds t0 (map toScheduledSound (rhythmTrack (data M)))
          (currentTime M) (audio M)) ''p4'' = Some (t0 + 0.02 + 1.4)"
    by (simp add: m(3,4) p4_def)
  then have "scheduledSounds (audio (togglePlay t0 M)) ''p4'' = Some (t0 + 0.02 + 1.4)"
    by (simp only: togglePlay_start(1) [OF m(1,2)])
  then have 3: "scheduledSounds
           (audio (togglePlay t0 (handleSpeedChange 0.5 (mountStudio PRO_SWING_DATA models))))
           ''p4'' = Some (t0 + 0.02 + 1.4)"
    unfolding M_def .
  show ?thesis using 1 2 3 by blast
qed

theorem booked_time_ignores_speed_witness:
  "created_together audioService \<and>
   \<lparr>id_sound = ''p4'', type_sound = CRASH, time_sound = 1.4, intensity_sound = 1\<rparr>
     \<in> set (map toScheduledSound (rhythmTrack PRO_SWING_DATA)) \<and>
   (0::real) \<le> 1.4 \<and>
   distinct (map id_sound (map toScheduledSound (rhythmTrack PRO_SWING_DATA))) \<and>
   scheduledSounds
     (scheduleSounds 0 (map toScheduledSound (rhythmTrack PRO_SWING_DATA)) 0
        (setSpeed (1 / 2) audioService)) ''p4'' = Some 1.42"
proof -
  let ?p4 = "\<lparr>id_sound = ''p4'', type_sound = CRASH, time_sound = 1.4, intensity_sound = 1\<rparr>"
  let ?sounds = "map toScheduledSound (rhythmTrack PRO_SWING_DATA)"
  have h1: "created_together audioService"
    by (simp add: created_together_def audioService_def)
  have h2: "?p4 \<in> set ?sounds"
    by (simp add: PRO_SWING_DATA_def toScheduledSound_def or_default_def)
  have h3: "0 \<le> time_sound ?p4" by simp
  have h4: "distinct (map id_sound ?sounds)"
    by (simp add: PRO_SWING_DATA_def toScheduledSound_def)
  show ?thesis
    using booked_time_ignores_speed [OF h1 h2 h3 h4, of 0 "1 / 2"] h1 h2 h4 by simp
qed

text \<open>
  As the claim states it, the CRASH would be booked at \<open>t0 + 0.02 + 1.4 / 0.5\<close>; the
  service books it at \<open>t0 + 0.02 + 1.4\<close>.
\<close>

theorem crash_at_half_speed_counterexample:
  "scheduledSounds
     (scheduleSounds 0 (map toScheduledSound (rhythmTrack PRO_SWING_DATA)) 0
        (setSpeed (1 / 2) audioService)) ''p4'' = Some 1.42 \<and>
   scheduledSounds
     (scheduleSounds 0 (map toScheduledSound (rhythmTrack PRO_SWING_DATA)) 0
        (setSpeed (1 / 2) audioService)) ''p4'' \<noteq> Some (0 + 0.02 + (1.4 - 0) / (1 / 2))"
proof -
  have "created_together (setSpeed (1 / 2) audioService)"
    by (simp add: created_together_def setSpeed_def audioService_def)
  from PRO_commit_crash [OF this] show ?thesis by simp
qed

section \<open>Cancelling\<close>

text \<open>
  C4. Playing the sample recording at engine time \<open>0\<close> and pausing at \<open>0.1\<close>: the pause
  runs \<open>clearScheduledSounds\<close>, which empties the bookkeeping map, and all five sources
  armed by the commit stay with the engine, every one with a start time after the pause.
\<close>

theorem cancel_leaves_sources_armed:
  "isPlaying (togglePlay 0.1 (togglePlay 0 (mountStudio PRO_SWING_DATA []))) = False \<and>
   scheduledSounds (audio (togglePlay 0.1 (togglePlay 0 (mountStudio PRO_SWING_DATA [])))) = Map.empty \<and>
   map start_at (armed_sources (audio (togglePlay 0.1 (togglePlay 0 (mountStudio PRO_SWING_DATA [])))))
     = [0.52, 0.92, 1.22, 1.22, 1.42]"
proof -
  define M where "M = mountStudio PRO_SWING_DATA []"
  define P where "P = togglePlay 0 M"
  have m: "\<not> isPlaying M" "\<not> scheduledRef M" "currentTime M = 0" "data M = PRO_SWING_DATA"
    "armed_sources (audio M) = []" "created_together (audio M)"
    unfolding M_def by (simp_all add: mountStudio_fields created_together_mount)
  have p: "isPlaying P" unfolding P_def by (rule togglePlay_start(2) [OF m(1,2)])
  have "map start_at (armed_sources (audio P)) = [0.52, 0.92, 1.22, 1.22, 1.42]"
    unfolding P_def togglePlay_start(1) [OF m(1,2)] m(3,4)
    by (simp only: PRO_commit_start_times [OF m(6)] m(5) list.map append_Nil)
  moreover have "scheduledSounds (clearScheduledSounds (audio P)) = Map.empty"
    by (simp add: clearScheduledSounds_def)
  ultimately have "isPlaying (togglePlay 0.1 P) = False \<and>
    scheduledSounds (audio (togglePlay 0.1 P)) = Map.empty \<and>
    map start_at (armed_sources (audio (togglePlay 0.1 P))) = [0.52, 0.92, 1.22, 1.22, 1.42]"
    by (simp add: togglePlay_pause [OF p] clear_fields)
  then show ?thesis unfolding P_def M_def .
qed

text \<open>
  C5 (as the code has it). A speed change touches neither the engine's armed sources nor
  the recorded bookings nor the visualizer's \<open>scheduledRef\<close>, and the frames that follow
  it do not either: nothing is cancelled and nothing is committed. The change sets the
  speed of the clock and of the service, where it changes the pitch of the voices created
  afterwards, and leaves the rest of the service as it was.
\<close>

theorem speed_change_keeps_bookings:
  "audio (run_frames ts (handleSpeedChange s st)) = (audio st)\<lparr>currentSpeed := s\<rparr> \<and>
   armed_sources (audio (run_frames ts (handleSpeedChange s st))) = armed_sources (audio st) \<and>
   scheduledSounds (audio (run_frames ts (handleSpeedChange s st))) = scheduledSounds (audio st) \<and>
   scheduledRef (run_frames ts (handleSpeedChange s st)) = scheduledRef st \<and>
   isPlaying (handleSpeedChange s st) = isPlaying st \<and>
   speedRef (handleSpeedChange s st) = s \<and>
   getPitchShift (audio (handleSpeedChange s st)) = 2 powr ((s - 1) * 0.167)"
  by (simp add: run_frames_audio handleSpeedChange_def setSpeed_def getPitchShift_def
      armed_sources_def)

text \<open>
  Playing the sample recording at speed \<open>1\<close> and changing to \<open>0.5\<close>: the bookings made
  under speed \<open>1\<close> are all still recorded and armed.
\<close>

theorem speed_change_counterexample:
  "isPlaying (handleSpeedChange (1 / 2) (togglePlay 0 (mountStudio PRO_SWING_DATA []))) \<and>
   scheduledSounds (audio (handleSpeedChange (1 / 2) (togglePlay 0 (mountStudio PRO_SWING_DATA []))))
     ''p4'' = Some 1.42 \<and>
   map start_at (armed_sources
     (audio (handleSpeedChange (1 / 2) (togglePlay 0 (mountStudio PRO_SWING_DATA [])))))
     = [0.52, 0.92, 1.22, 1.22, 1.42]"
proof -
  define M where "M = mountStudio PRO_SWING_DATA []"
  define P where "P = togglePlay 0 M"
  have m: "\<not> isPlaying M" "\<not> scheduledRef M" "currentTime M = 0" "data M = PRO_SWING_DATA"
    "armed_sources (audio M) = []" "created_together (audio M)"
    unfolding M_def by (simp_all add: mountStudio_fields created_together_mount)
  have p: "isPlaying P" unfolding P_def by (rule togglePlay_start(2) [OF m(1,2)])
  have a: "map start_at (armed_sources (audio P)) = [0.52, 0.92, 1.22, 1.22, 1.42]"
    unfolding P_def togglePlay_start(1) [OF m(1,2)] m(3,4)
    by (simp only: PRO_commit_start_times [OF m(6)] m(5) list.map append_Nil)
  have b: "scheduledSounds (audio P) ''p4'' = Some 1.42"
    unfolding P_def togglePlay_start(1) [OF m(1,2)] m(3,4)
    by (rule PRO_commit_crash [OF m(6)])
  have "isPlaying (handleSpeedChange (1 / 2) P) \<and>
    scheduledSounds (audio (handleSpeedChange (1 / 2) P)) ''p4'' = Some 1.42 \<and>
    map start_at (armed_sources (audio (handleSpeedChange (1 / 2) P)))
      = [0.52, 0.92, 1.22, 1.22, 1.42]"
    using p a b by (simp add: handleSpeedChange_def setSpeed_def armed_sources_def)
  then show ?thesis unfolding P_def M_def .
qed

section \<open>The default intensity\<close>

text \<open>
  C9. A node whose intensity is absent or \<open>0\<close> is handed to the scheduler with intensity
  \<open>0.7\<close>. When playback starts from a stopped studio, such a node at or after the
  current position is rendered with the parameters of intensity \<open>0.7\<close>, whatever its
  type: the engine holds, at the node's booked time, a KICK oscillator of amplitude
  \<open>0.3 + 0.7 \<sqdot> 0.7\<close> (not the \<open>0.3\<close> of intensity \<open>0\<close>), a BASS oscillator of amplitude
  \<open>0.24 + 0.7 \<sqdot> 0.56\<close>, the SNARE's noise of amplitude \<open>0.12 + 0.7 \<sqdot> 0.28\<close> with its
  tone of amplitude \<open>0.09 + 0.7 \<sqdot> 0.21\<close>, or a CRASH noise of amplitude
  \<open>0.15 + 0.7 \<sqdot> 0.35\<close> behind a highpass at \<open>2000 (1 + 0.7 \<sqdot> 0.75)\<close>.
\<close>

theorem default_intensity:
  assumes "intensity_node node = None \<or> intensity_node node = Some 0"
    and "\<not> isPlaying st" and "\<not> scheduledRef st" and "created_together (audio st)"
    and "node \<in> set (rhythmTrack (data st))" and "currentTime st \<le> timestamp node"
  shows "intensity_sound (toScheduledSound node) = 0.7 \<and>
         set (case type_node node of
                KICK \<Rightarrow>
                  [\<lparr>kind = Oscillator (150 * (1 + 0.7 * 0.5) *
                             2 powr ((currentSpeed (audio st) - 1) * 0.167)),
                    gain_at_start = 0.3 + 0.7 * 0.7,
                    start_at = now + 0.02 + (timestamp node - currentTime st),
                    stop_at = now + 0.02 + (timestamp node - currentTime st) + 0.5\<rparr>]
              | BASS \<Rightarrow>
                  [\<lparr>kind = Oscillator (100 * (1 + 0.7 * 0.5) *
                             2 powr ((currentSpeed (audio st) - 1) * 0.167)),
                    gain_at_start = 0.24 + 0.7 * 0.56,
                    start_at = now + 0.02 + (timestamp node - currentTime st),
                    stop_at = now + 0.02 + (timestamp node - currentTime st) + 0.4\<rparr>]
              | SNARE \<Rightarrow>
                  [\<lparr>kind = NoiseHighpass 1000,
                    gain_at_start = 0.12 + 0.7 * 0.28,
                    start_at = now + 0.02 + (timestamp node - currentTime st),
                    stop_at = now + 0.02 + (timestamp node - currentTime st) + 0.2\<rparr>,
                   \<lparr>kind = Oscillator (180 * (1 + 0.7 * 0.5) *
                             2 powr ((currentSpeed (audio st) - 1) * 0.167)),
                    gain_at_start = 0.09 + 0.7 * 0.21,
                    start_at = now + 0.02 + (timestamp node - currentTime st),
                    stop_at = now + 0.02 + (timestamp node - currentTime st) + 0.1\<rparr>]
              | CRASH \<Rightarrow>
                  [\<lparr>kind = NoiseHighpass (2000 * (1 + 0.7 * 0.75)),
                    gain_at_start = 0.15 + 0.7 * 0.35,
                    start_at = now + 0.02 + (timestamp node - currentTime st),
                    stop_at = now + 0.02 + (timestamp node - currentTime st) + 0.5\<rparr>])
           \<subseteq> set (armed_sources (audio (togglePlay now st)))"
proof -
  let ?sound = "toScheduledSound node"
  let ?sounds = "map toScheduledSound (rhythmTrack (data st))"
  let ?at = "now + 0.02 + (timestamp node - currentTime st)"
  have i: "intensity_sound ?sound = 0.7"
    using assms(1) by (auto simp: toScheduledSound_def or_default_def)
  have f: "type_sound ?sound = type_node node" "time_sound ?sound = timestamp node"
    by (simp_all add: toScheduledSound_def)
  have "?sound \<in> set ?sounds" using assms(5) by simp
  then have "set (voice (currentSpeed (audio st)) (type_sound ?sound)
                (now + 0.02 + (time_sound ?sound - currentTime st)) (intensity_sound ?sound))
           \<subseteq> set (armed_sources (scheduleSounds now ?sounds (currentTime st) (audio st)))"
    using assms(6) by (intro scheduleSounds_voice_armed [OF assms(4)]) (simp_all add: f)
  then have v: "set (voice (currentSpeed (audio st)) (type_node node) ?at 0.7)
           \<subseteq> set (armed_sources (audio (togglePlay now st)))"
    by (simp only: togglePlay_start(1) [OF assms(2,3)] f i)
  have "voice (currentSpeed (audio st)) (type_node node) ?at 0.7 =
        (case type_node node of
                KICK \<Rightarrow>
                  [\<lparr>kind = Oscillator (150 * (1 + 0.7 * 0.5) *
                             2 powr ((currentSpeed (audio st) - 1) * 0.167)),
                    gain_at_start = 0.3 + 0.7 * 0.7,
                    start_at = ?at, stop_at = ?at + 0.5\<rparr>]
              | BASS \<Rightarrow>
                  [\<lparr>kind = Oscillator (100 * (1 + 0.7 * 0.5) *
                             2 powr ((currentSpeed (audio st) - 1) * 0.167)),
                    gain_at_start = 0.24 + 0.7 * 0.56,
                    start_at = ?at, stop_at = ?at + 0.4\<rparr>]
              | SNARE \<Rightarrow>
                  [\<lparr>kind = NoiseHighpass 1000,
                    gain_at_start = 0.12 + 0.7 * 0.28,
                    start_at = ?at, stop_at = ?at + 0.2\<rparr>,
                   \<lparr>kind = Oscillator (180 * (1 + 0.7 * 0.5) *
                             2 powr ((currentSpeed (audio st) - 1) * 0.167)),
                    gain_at_start = 0.09 + 0.7 * 0.21,
                    start_at = ?at, stop_at = ?at + 0.1\<rparr>]
              | CRASH \<Rightarrow>
                  [\<lparr>kind = NoiseHighpass (2000 * (1 + 0.7 * 0.75)),
                    gain_at_start = 0.15 + 0.7 * 0.35,
                    start_at = ?at, stop_at = ?at + 0.5\<rparr>])"
    by (cases "type_node node") (simp_all add: voice_simps)
  with v i show ?thesis by simp
qed

theorem default_intensity_witness:
  "(intensity_node \<lparr>id_node = ''c'', timestamp = 1.4, intensity_node = None, type_node = CRASH,
        label_node = ''Contact''\<rparr> = None \<or>
    intensity_node \<lparr>id_node = ''c'', timestamp = 1.4, intensity_node = None, type_node = CRASH,
        label_node = ''Contact''\<rparr> = Some 0) \<and>
   (intensity_node \<lparr>id_node = ''z'', timestamp = 0.5, intensity_node = Some 0, type_node = KICK,
        label_node = ''Leg Load''\<rparr> = None \<or>
    intensity_node \<lparr>id_node = ''z'', timestamp = 0.5, intensity_node = Some 0, type_node = KICK,
        label_node = ''Leg Load''\<rparr> = Some 0) \<and>
   \<lparr>kind = NoiseHighpass 3050, gain_at_start = 0.395, start_at = 1.42, stop_at = 1.92\<rparr>
     \<in> set (armed_sources (audio (togglePlay 0 (mountStudio
     \<lparr>duration = 2.5, rhythmTrack =
        [\<lparr>id_node = ''z'', timestamp = 0.5, intensity_node = Some 0, type_node = KICK,
          label_node = ''Leg Load''\<rparr>,
         \<lparr>id_node = ''c'', timestamp = 1.4, intensity_node = None, type_node = CRASH,
          label_node = ''Contact''\<rparr>]\<rparr> [])))) \<and>
   \<lparr>kind = Oscillator 202.5, gain_at_start = 0.79, start_at = 0.52, stop_at = 1.02\<rparr>
     \<in> set (armed_sources (audio (togglePlay 0 (mountStudio
     \<lparr>duration = 2.5, rhythmTrack =
        [\<lparr>id_node = ''z'', timestamp = 0.5, intensity_node = Some 0, type_node = KICK,
          label_node = ''Leg Load''\<rparr>,
         \<lparr>id_node = ''c'', timestamp = 1.4, intensity_node = None, type_node = CRASH,
          label_node = ''Contact''\<rparr>]\<rparr> [])))) \<and>
   armed_sources (audio (togglePlay 0 (mountStudio
     \<lparr>duration = 2.5, rhythmTrack =
        [\<lparr>id_node = ''z'', timestamp = 0.5, intensity_node = Some 0, type_node = KICK,
          label_node = ''Leg Load''\<rparr>,
         \<lparr>id_node = ''c'', timestamp = 1.4, intensity_node = None, type_node = CRASH,
          label_node = ''Contact''\<rparr>]\<rparr> []))) =
     [\<lparr>kind = Oscillator 202.5, gain_at_start = 0.79, start_at = 0.52, stop_at = 1.02\<rparr>,
      \<lparr>kind = NoiseHighpass 3050, gain_at_start = 0.395, start_at = 1.42, stop_at = 1.92\<rparr>]"
proof -
  define z where "z = \<lparr>id_node = ''z'', timestamp = 0.5, intensity_node = Some 0,
    type_node = KICK, label_node = ''Leg Load''\<rparr>"
  define c where "c = \<lparr>id_node = ''c'', timestamp = 1.4, intensity_node = None,
    type_node = CRASH, label_node = ''Contact''\<rparr>"
  define M where "M = mountStudio \<lparr>duration = 2.5, rhythmTrack = [z, c]\<rparr> []"
  have z1: "intensity_node z = None \<or> intensity_node z = Some 0" by (simp add: z_def)
  have c1: "intensity_node c = None \<or> intensity_node c = Some 0" by (simp add: c_def)
  have h2: "\<not> isPlaying M" and h3: "\<not> scheduledRef M"
    and z5: "z \<in> set (rhythmTrack (data M))" and z6: "currentTime M \<le> timestamp z"
    and c5: "c \<in> set (rhythmTrack (data M))" and c6: "currentTime M \<le> timestamp c"
    and sp: "currentSpeed (audio M) = 1" and ct: "currentTime M = 0"
    by (simp_all add: M_def mountStudio_def z_def c_def setSpeed_def)
  have h4: "created_together (audio M)" unfolding M_def by (rule created_together_mount)
  have k: "type_node z = KICK" "type_node c = CRASH" by (simp_all add: z_def c_def)
  have 1: "\<lparr>kind = NoiseHighpass 3050, gain_at_start = 0.395, start_at = 1.42, stop_at = 1.92\<rparr>
     \<in> set (armed_sources (audio (togglePlay 0 M)))"
    using default_intensity [OF c1 h2 h3 h4 c5 c6, of 0] k(2)
    by (simp add: sp ct c_def)
  have 2: "\<lparr>kind = Oscillator 202.5, gain_at_start = 0.79, start_at = 0.52, stop_at = 1.02\<rparr>
     \<in> set (armed_sources (audio (togglePlay 0 M)))"
    using default_intensity [OF z1 h2 h3 h4 z5 z6, of 0] k(1)
    by (simp add: sp ct z_def)
  have 3: "armed_sources (audio (togglePlay 0 M)) =
     [\<lparr>kind = Oscillator 202.5, gain_at_start = 0.79, start_at = 0.52, stop_at = 1.02\<rparr>,
      \<lparr>kind = NoiseHighpass 3050, gain_at_start = 0.395, start_at = 1.42, stop_at = 1.92\<rparr>]"
    unfolding togglePlay_start(1) [OF h2 h3] scheduleSounds_armed [OF h4]
    by (simp add: M_def z_def c_def mountStudio_fields toScheduledSound_def or_default_def
        voice_simps)
  show ?thesis using 1 2 3 z1 c1 unfolding M_def z_def c_def by simp
qed

section \<open>Facts about the clock\<close>

lemma togglePlay_clock:
  "isPlaying (togglePlay now st) = (\<not> isPlaying st)"
  "frameRequested (togglePlay now st) = (\<not> isPlaying st)"
  "startTimeRef (togglePlay now st) = None"
  "currentTime (togglePlay now st) = currentTime st"
  "speedRef (togglePlay now st) = speedRef st"
  "durationRef (togglePlay now st) = durationRef st"
  "endedLog (togglePlay now st) = endedLog st"
  by (simp_all add: togglePlay_def playingChanged_def rhythmEffect_def isPlayingEffect_def Let_def)


lemma mountStudio_clock:
  "isPlaying (mountStudio d ms) = False"
  "frameRequested (mountStudio d ms) = False"
  "startTimeRef (mountStudio d ms) = None"
  "currentTime (mountStudio d ms) = 0"
  "speedRef (mountStudio d ms) = 1"
  "durationRef (mountStudio d ms) = duration d"
  "endedLog (mountStudio d ms) = 0"
  by (simp_all add: mountStudio_def)

text \<open>What one frame does to the clock, by the position it computes.\<close>

lemma animate_clock:
  "isPlaying (animate t st) =
     (if durationRef st \<le> (t - startOr (startTimeRef st) t) / 1000 * speedRef st
      then False else isPlaying st)"
  "frameRequested (animate t st) =
     (\<not> durationRef st \<le> (t - startOr (startTimeRef st) t) / 1000 * speedRef st)"
  "startTimeRef (animate t st) =
     (if durationRef st \<le> (t - startOr (startTimeRef st) t) / 1000 * speedRef st
      then None else Some (startOr (startTimeRef st) t))"
  "currentTime (animate t st) =
     (if durationRef st \<le> (t - startOr (startTimeRef st) t) / 1000 * speedRef st
      then durationRef st else (t - startOr (startTimeRef st) t) / 1000 * speedRef st)"
  "speedRef (animate t st) = speedRef st"
  "durationRef (animate t st) = durationRef st"
  "endedLog (animate t st) =
     (if durationRef st \<le> (t - startOr (startTimeRef st) t) / 1000 * speedRef st
      then endedLog st + 1 else endedLog st)"
  by (simp_all add: animate_def Let_def)

lemma startOr_simps:
  "startOr None t = t"
  "T0 \<noteq> 0 \<Longrightarrow> startOr (Some T0) t = T0"
  "startOr (Some 0) t = t"
  by (simp_all add: startOr_def)

lemma run_frames_stopped: "\<not> frameRequested st \<Longrightarrow> run_frames ts st = st"
  by (cases ts) simp_all

lemma run_frames_append:
  "run_frames (ts @ us) st = run_frames us (run_frames ts st)"
proof (induction ts arbitrary: st)
  case Nil
  then show ?case by simp
next
  case (Cons t ts)
  then show ?case by (simp add: run_frames_stopped)
qed

text \<open>A run that has its reference time and stays short of the end keeps running.\<close>

lemma run_frames_running:
  assumes "startTimeRef st = Some T0" "T0 \<noteq> 0" "frameRequested st"
    and "\<forall>t \<in> set ts. (t - T0) / 1000 * speedRef st < durationRef st"
  shows "startTimeRef (run_frames ts st) = Some T0 \<and> frameRequested (run_frames ts st) \<and>
         speedRef (run_frames ts st) = speedRef st \<and>
         durationRef (run_frames ts st) = durationRef st \<and>
         isPlaying (run_frames ts st) = isPlaying st \<and>
         endedLog (run_frames ts st) = endedLog st"
  using assms
proof (induction ts arbitrary: st)
  case Nil
  then show ?case by simp
next
  case (Cons t ts)
  have b: "\<not> durationRef st \<le> (t - T0) / 1000 * speedRef st"
    using Cons.prems(4) by simp
  have a: "startTimeRef (animate t st) = Some T0" "frameRequested (animate t st)"
    "speedRef (animate t st) = speedRef st" "durationRef (animate t st) = durationRef st"
    "isPlaying (animate t st) = isPlaying st" "endedLog (animate t st) = endedLog st"
    using b by (simp_all add: animate_clock Cons.prems(1) startOr_simps(2) [OF Cons.prems(2)])
  have "\<forall>u \<in> set ts. (u - T0) / 1000 * speedRef (animate t st) < durationRef (animate t st)"
    using Cons.prems(4) by (simp add: animate_clock)
  from Cons.IH [OF a(1) Cons.prems(2) a(2) this]
  show ?case using Cons.prems(3) a by simp
qed

lemma tick_running:
  assumes "startTimeRef st = Some T0" "T0 \<noteq> 0"
    and "(T - T0) / 1000 * speedRef st < durationRef st"
  shows "currentTime (animate T st) = (T - T0) / 1000 * speedRef st"
  using assms(3) by (simp add: animate_clock assms(1) startOr_simps(2) [OF assms(2)])

text \<open>
  Within one run the position is a function of the elapsed time alone: with \<open>T0\<close> the
  timestamp of the run's first frame, a frame at \<open>T\<close> short of the end reports
  \<open>(T - T0) / 1000 \<sqdot> speed\<close>, however many frames came between and whenever.
\<close>

lemma run_position_absolute:
  assumes "\<not> isPlaying st" and "T0 \<noteq> 0" and "0 < durationRef st"
    and "\<forall>t \<in> set (ts @ [T]). (t - T0) / 1000 * speedRef st < durationRef st"
  shows "currentTime (run_frames [T0] (togglePlay now st)) = 0 \<and>
         currentTime (run_frames (T0 # ts @ [T]) (togglePlay now st)) =
           (T - T0) / 1000 * speedRef st"
proof -
  let ?p = "togglePlay now st"
  let ?a = "animate T0 ?p"
  have p: "frameRequested ?p" "startTimeRef ?p = None" "speedRef ?p = speedRef st"
    "durationRef ?p = durationRef st"
    using assms(1) by (simp_all add: togglePlay_clock)
  have a: "startTimeRef ?a = Some T0" "frameRequested ?a" "speedRef ?a = speedRef st"
    "durationRef ?a = durationRef st" "currentTime ?a = 0"
    using assms(3) by (simp_all add: animate_clock p startOr_simps)
  have 1: "currentTime (run_frames [T0] ?p) = 0" using p(1) a(5) by simp
  let ?r = "run_frames ts ?a"
  have "\<forall>t \<in> set ts. (t - T0) / 1000 * speedRef ?a < durationRef ?a"
    using assms(4) by (simp add: a)
  from run_frames_running [OF a(1) assms(2) a(2) this]
  have r: "startTimeRef ?r = Some T0" "frameRequested ?r" "speedRef ?r = speedRef st"
    "durationRef ?r = durationRef st"
    by (simp_all add: a)
  have "(T - T0) / 1000 * speedRef ?r < durationRef ?r" using assms(4) by (simp add: r)
  from tick_running [OF r(1) assms(2) this]
  have "currentTime (animate T ?r) = (T - T0) / 1000 * speedRef st" by (simp add: r)
  moreover have "run_frames (T0 # ts @ [T]) ?p = animate T ?r"
    using p(1) r(2) by (simp add: run_frames_append)
  ultimately show ?thesis using 1 by simp
qed


text \<open>The sample recording played for a second from frame time 1000 and then paused.\<close>

lemma PRO_played_one_second:
  "startTimeRef (run_frames [1000, 2000] (togglePlay 0 (mountStudio PRO_SWING_DATA []))) = Some 1000"
  "frameRequested (run_frames [1000, 2000] (togglePlay 0 (mountStudio PRO_SWING_DATA [])))"
  "isPlaying (run_frames [1000, 2000] (togglePlay 0 (mountStudio PRO_SWING_DATA [])))"
  "currentTime (run_frames [1000, 2000] (togglePlay 0 (mountStudio PRO_SWING_DATA []))) = 1"
  "speedRef (run_frames [1000, 2000] (togglePlay 0 (mountStudio PRO_SWING_DATA []))) = 1"
  "durationRef (run_frames [1000, 2000] (togglePlay 0 (mountStudio PRO_SWING_DATA []))) = 2.5"
  by (simp_all add: togglePlay_clock mountStudio_clock animate_clock startOr_def PRO_SWING_DATA_def)

section \<open>The playback clock\<close>

text \<open>
  C2. The sample recording is played for a second, paused at position \<open>1\<close> and resumed.
  Half a second into the resumed run the clock reports \<open>0.5\<close>, where a run started from
  position \<open>1\<close> is at \<open>1 + 0.5\<close>: the clock restarts from \<open>0\<close>. On the same press of
  play the visualizer commits the cues from position \<open>1\<close>: the SNARE at \<open>1.2\<close> is booked
  \<open>0.22\<close> seconds after the resume at engine time \<open>7\<close>, and the KICK at \<open>0.5\<close> is
  not booked.
\<close>

theorem resume_restarts_from_zero:
  "\<not> isPlaying (togglePlay 3 (run_frames [1000, 2000] (togglePlay 0 (mountStudio PRO_SWING_DATA [])))) \<and>
   currentTime (togglePlay 3 (run_frames [1000, 2000] (togglePlay 0 (mountStudio PRO_SWING_DATA [])))) = 1 \<and>
   currentTime (run_frames [5000, 5500]
     (togglePlay 7 (togglePlay 3 (run_frames [1000, 2000] (togglePlay 0 (mountStudio PRO_SWING_DATA []))))))
     = 1 / 2 \<and>
   currentTime (run_frames [5000, 5500]
     (togglePlay 7 (togglePlay 3 (run_frames [1000, 2000] (togglePlay 0 (mountStudio PRO_SWING_DATA []))))))
     \<noteq> 1 + (5500 - 5000) / 1000 * 1 \<and>
   scheduledSounds (audio (run_frames [5000, 5500]
     (togglePlay 7 (togglePlay 3 (run_frames [1000, 2000] (togglePlay 0 (mountStudio PRO_SWING_DATA [])))))))
     ''p3'' = Some 7.22 \<and>
   scheduledSounds (audio (run_frames [5000, 5500]
     (togglePlay 7 (togglePlay 3 (run_frames [1000, 2000] (togglePlay 0 (mountStudio PRO_SWING_DATA [])))))))
     ''p1'' = None"
proof -
  define M where "M = mountStudio PRO_SWING_DATA []"
  define Q where "Q = run_frames [1000, 2000] (togglePlay 0 M)"
  define P where "P = togglePlay 3 Q"
  define A where "A = audio P"
  let ?sounds = "map toScheduledSound (rhythmTrack PRO_SWING_DATA)"
  have m: "\<not> isPlaying M" "\<not> scheduledRef M" "created_together (audio M)"
    "data M = PRO_SWING_DATA"
    unfolding M_def by (simp_all add: mountStudio_fields created_together_mount)
  have q: "isPlaying Q" "currentTime Q = 1" "speedRef Q = 1" "durationRef Q = 2.5"
    unfolding Q_def M_def by (simp_all only: PRO_played_one_second)
  have qa: "audio Q = audio (togglePlay 0 M)" unfolding Q_def by (simp only: run_frames_audio)
  have "ready (audio (togglePlay 0 M))"
    unfolding togglePlay_start(1) [OF m(1,2)] by (rule scheduleSounds_ready [OF m(3)])
  then have ca: "created_together A"
    unfolding A_def P_def togglePlay_pause(1) [OF q(1)] qa
    by (simp add: ready_created_together clear_fields)
  have p: "\<not> isPlaying P" "currentTime P = 1" "speedRef P = 1" "durationRef P = 2.5"
    unfolding P_def using q by (simp_all add: togglePlay_clock)
  have ps: "\<not> scheduledRef P" "data P = PRO_SWING_DATA"
    unfolding P_def using q(1) m(4)
    by (simp_all only: togglePlay_pause_flag togglePlay_data Q_def run_frames_data not_False_eq_True)
  let ?R = "run_frames [5000, 5500] (togglePlay 7 P)"
  have c: "currentTime ?R = 1 / 2"
    by (simp add: togglePlay_clock animate_clock startOr_def p)
  have a: "audio ?R = scheduleSounds 7 ?sounds 1 A"
    by (simp only: run_frames_audio togglePlay_start(1) [OF p(1) ps(1)] ps(2) p(2) A_def)
  define p3 where "p3 = \<lparr>id_sound = ''p3'', type_sound = SNARE, time_sound = 1.2,
    intensity_sound = 0.9\<rparr>"
  have "scheduledSounds (scheduleSounds 7 ?sounds 1 A) (id_sound p3) =
        Some (7 + 0.02 + (time_sound p3 - 1))"
    by (rule scheduleSounds_booked [OF ca])
       (simp_all add: PRO_SWING_DATA_def toScheduledSound_def or_default_def p3_def)
  then have b3: "scheduledSounds (audio ?R) ''p3'' = Some 7.22"
    unfolding a by (simp add: p3_def)
  have "scheduledSounds (scheduleSounds 7 ?sounds 1 A) ''p1'' =
        scheduledSounds (clearScheduledSounds (initAudio A)) ''p1''"
    unfolding scheduleSounds_unfold [OF ca]
    by (rule foldl_each_unbooked)
       (simp add: PRO_SWING_DATA_def toScheduledSound_def or_default_def)
  then have b1: "scheduledSounds (audio ?R) ''p1'' = None"
    unfolding a by (simp add: clearScheduledSounds_def)
  have "\<not> isPlaying P \<and> currentTime P = 1 \<and> currentTime ?R = 1 / 2 \<and>
    currentTime ?R \<noteq> 1 + (5500 - 5000) / 1000 * 1 \<and>
    scheduledSounds (audio ?R) ''p3'' = Some 7.22 \<and> scheduledSounds (audio ?R) ''p1'' = None"
    using p(1,2) c b3 b1 by simp
  then show ?thesis unfolding P_def Q_def M_def .
qed





text \<open>A run that has its reference time ends at the first frame that reaches the end.\<close>

lemma run_frames_ends:
  assumes "startTimeRef st = Some T0" "T0 \<noteq> 0" "frameRequested st"
    and "\<exists>t \<in> set ts. durationRef st \<le> (t - T0) / 1000 * speedRef st"
  shows "currentTime (run_frames ts st) = durationRef st \<and> \<not> isPlaying (run_frames ts st) \<and>
         \<not> frameRequested (run_frames ts st) \<and> endedLog (run_frames ts st) = endedLog st + 1"
  using assms
proof (induction ts arbitrary: st)
  case Nil
  then show ?case by simp
next
  case (Cons t ts)
  note so = startOr_simps(2) [OF Cons.prems(2)]
  show ?case
  proof (cases "durationRef st \<le> (t - T0) / 1000 * speedRef st")
    case True
    then have e: "\<not> frameRequested (animate t st)" "\<not> isPlaying (animate t st)"
      "currentTime (animate t st) = durationRef st" "endedLog (animate t st) = endedLog st + 1"
      by (simp_all add: animate_clock Cons.prems(1) so)
    show ?thesis
      using Cons.prems(3) e by (simp add: run_frames_stopped [OF e(1)])
  next
    case False
    then have a: "startTimeRef (animate t st) = Some T0" "frameRequested (animate t st)"
      "speedRef (animate t st) = speedRef st" "durationRef (animate t st) = durationRef st"
      "endedLog (animate t st) = endedLog st"
      by (simp_all add: animate_clock Cons.prems(1) so)
    have "\<exists>u \<in> set ts. durationRef (animate t st) \<le> (u - T0) / 1000 * speedRef (animate t st)"
      using Cons.prems(4) False by (auto simp: a)
    from Cons.IH [OF a(1) Cons.prems(2) a(2) this]
    show ?thesis using Cons.prems(3) by (simp add: a)
  qed
qed

text \<open>Whatever the frames, a run logs the end at most once, and exactly when it has stopped.\<close>

lemma run_frames_logs_once:
  assumes "isPlaying st" "frameRequested st"
  shows "endedLog (run_frames fs st) =
           endedLog st + (if isPlaying (run_frames fs st) then 0 else 1) \<and>
         isPlaying (run_frames fs st) = frameRequested (run_frames fs st) \<and>
         durationRef (run_frames fs st) = durationRef st \<and>
         (isPlaying (run_frames fs st) \<or> currentTime (run_frames fs st) = durationRef st)"
  using assms
proof (induction fs arbitrary: st)
  case Nil
  then show ?case by simp
next
  case (Cons t ts)
  show ?case
  proof (cases "durationRef st \<le> (t - startOr (startTimeRef st) t) / 1000 * speedRef st")
    case True
    then have e: "\<not> frameRequested (animate t st)" "\<not> isPlaying (animate t st)"
      "currentTime (animate t st) = durationRef st" "endedLog (animate t st) = endedLog st + 1"
      "durationRef (animate t st) = durationRef st"
      by (simp_all add: animate_clock)
    show ?thesis
      using Cons.prems(2) e by (simp add: run_frames_stopped [OF e(1)])
  next
    case False
    then have a: "isPlaying (animate t st)" "frameRequested (animate t st)"
      "durationRef (animate t st) = durationRef st" "endedLog (animate t st) = endedLog st"
      using Cons.prems(1) by (simp_all add: animate_clock)
    from Cons.IH [OF a(1,2)] show ?thesis using Cons.prems(2) by (auto simp: a)
  qed
qed

text \<open>
  C7 (as the code has it). In the clock of the studio above, a run started on a stopped studio whose
  frames include one that reaches or passes the duration ends there: the position is
  exactly the duration, \<open>isPlaying\<close> is false, no further frame is requested (later
  timestamps change nothing) and the end has been logged once. For any frames at all, the
  end is logged once if the run has stopped and not at all while it plays, and a stopped
  run shows the duration; both are written by the same frame, the position first. The
  first studio's clock instead rewinds: its frame sets the position to \<open>0\<close> when the
  stepped position reaches the duration.
\<close>

theorem end_of_media:
  assumes "\<not> isPlaying st" and "T0 \<noteq> 0"
    and "\<exists>t \<in> set (T0 # ts). durationRef st \<le> (t - T0) / 1000 * speedRef st"
  shows "currentTime (run_frames (T0 # ts) (togglePlay now st)) = durationRef st \<and>
         \<not> isPlaying (run_frames (T0 # ts) (togglePlay now st)) \<and>
         \<not> frameRequested (run_frames (T0 # ts) (togglePlay now st)) \<and>
         endedLog (run_frames (T0 # ts) (togglePlay now st)) = endedLog st + 1 \<and>
         run_frames later (run_frames (T0 # ts) (togglePlay now st)) =
           run_frames (T0 # ts) (togglePlay now st) \<and>
         endedLog (run_frames fs (togglePlay now st)) =
           endedLog st + (if isPlaying (run_frames fs (togglePlay now st)) then 0 else 1) \<and>
         (isPlaying (run_frames fs (togglePlay now st)) \<or>
          currentTime (run_frames fs (togglePlay now st)) = durationRef st) \<and>
         currentTime0 (animate0 T L) =
           (if duration0 L \<le>
                 currentTime0 L + (T - startOr (startTimeRef0 L) T) / 1000 * speed0 L * 0.05
            then 0
            else currentTime0 L + (T - startOr (startTimeRef0 L) T) / 1000 * speed0 L * 0.05)"
proof -
  let ?p = "togglePlay now st"
  let ?r = "run_frames (T0 # ts) ?p"
  have p: "frameRequested ?p" "isPlaying ?p" "startTimeRef ?p = None"
    "speedRef ?p = speedRef st" "durationRef ?p = durationRef st" "endedLog ?p = endedLog st"
    using assms(1) by (simp_all add: togglePlay_clock)
  have r: "currentTime ?r = durationRef st \<and> \<not> isPlaying ?r \<and> \<not> frameRequested ?r \<and>
           endedLog ?r = endedLog st + 1"
  proof (cases "durationRef st \<le> 0")
    case True
    then have e: "\<not> frameRequested (animate T0 ?p)" "\<not> isPlaying (animate T0 ?p)"
      "currentTime (animate T0 ?p) = durationRef st" "endedLog (animate T0 ?p) = endedLog st + 1"
      by (simp_all add: animate_clock p startOr_simps)
    show ?thesis using p(1) e by (simp add: run_frames_stopped [OF e(1)])
  next
    case False
    then have a: "startTimeRef (animate T0 ?p) = Some T0" "frameRequested (animate T0 ?p)"
      "speedRef (animate T0 ?p) = speedRef st" "durationRef (animate T0 ?p) = durationRef st"
      "endedLog (animate T0 ?p) = endedLog st"
      by (simp_all add: animate_clock p startOr_simps)
    have "\<exists>t \<in> set ts. durationRef (animate T0 ?p) \<le> (t - T0) / 1000 * speedRef (animate T0 ?p)"
      using assms(3) False by (auto simp: a)
    from run_frames_ends [OF a(1) assms(2) a(2) this]
    show ?thesis using p(1) by (simp add: a)
  qed
  then have m: "run_frames later ?r = ?r" by (simp add: run_frames_stopped)
  have l: "endedLog (run_frames fs ?p) =
             endedLog st + (if isPlaying (run_frames fs ?p) then 0 else 1) \<and>
           (isPlaying (run_frames fs ?p) \<or> currentTime (run_frames fs ?p) = durationRef st)"
    using run_frames_logs_once [OF p(2) p(1), of fs] by (auto simp: p)
  have z: "currentTime0 (animate0 T L) =
           (if duration0 L \<le>
                 currentTime0 L + (T - startOr (startTimeRef0 L) T) / 1000 * speed0 L * 0.05
            then 0
            else currentTime0 L + (T - startOr (startTimeRef0 L) T) / 1000 * speed0 L * 0.05)"
    by (simp add: animate0_def Let_def)
  show ?thesis using r m l z by blast
qed

theorem end_of_media_witness:
  "\<not> isPlaying (mountStudio PRO_SWING_DATA []) \<and> (1000::real) \<noteq> 0 \<and>
   durationRef (mountStudio PRO_SWING_DATA []) \<le>
     (3600 - 1000) / 1000 * speedRef (mountStudio PRO_SWING_DATA []) \<and>
   currentTime (run_frames [1000, 2000, 3600, 3700] (togglePlay 0 (mountStudio PRO_SWING_DATA []))) = 2.5 \<and>
   \<not> isPlaying (run_frames [1000, 2000, 3600, 3700] (togglePlay 0 (mountStudio PRO_SWING_DATA []))) \<and>
   endedLog (run_frames [1000, 2000, 3600, 3700] (togglePlay 0 (mountStudio PRO_SWING_DATA []))) = 1"
proof -
  define M where "M = mountStudio PRO_SWING_DATA []"
  have h1: "\<not> isPlaying M" and d: "durationRef M = 2.5" and s: "speedRef M = 1"
    and e: "endedLog M = 0"
    unfolding M_def by (simp_all add: mountStudio_clock PRO_SWING_DATA_def)
  have h2: "(1000::real) \<noteq> 0" by simp
  have h3: "\<exists>t \<in> set (1000 # [2000, 3600, 3700]).
              durationRef M \<le> (t - 1000) / 1000 * speedRef M"
    by (simp add: d s)
  have "durationRef M \<le> (3600 - 1000) / 1000 * speedRef M" by (simp add: d s)
  then show ?thesis
    using end_of_media [OF h1 h2 h3, of 0 "[]" "[]" 0 "mountStudio0 1"] h1
    unfolding M_def [symmetric] by (simp add: d e del: run_frames.simps)
qed

text \<open>
  The first studio playing a recording of \<open>2.5\<close> seconds, one frame per second: the tenth
  frame shows \<open>2.25\<close>, the eleventh stops the run at position \<open>0\<close>.
\<close>

theorem first_studio_rewinds_counterexample:
  "currentTime0 (run_frames0 [1000, 2000, 3000, 4000, 5000, 6000, 7000, 8000, 9000, 10000]
     (togglePlay0 (mountStudio0 2.5))) = 2.25 \<and>
   currentTime0 (run_frames0 [1000, 2000, 3000, 4000, 5000, 6000, 7000, 8000, 9000, 10000, 11000]
     (togglePlay0 (mountStudio0 2.5))) = 0 \<and>
   \<not> isPlaying0 (run_frames0 [1000, 2000, 3000, 4000, 5000, 6000, 7000, 8000, 9000, 10000, 11000]
     (togglePlay0 (mountStudio0 2.5))) \<and>
   currentTime0 (run_frames0 [1000, 2000, 3000, 4000, 5000, 6000, 7000, 8000, 9000, 10000, 11000]
     (togglePlay0 (mountStudio0 2.5))) \<noteq> duration0 (mountStudio0 2.5)"
  by (simp add: mountStudio0_def togglePlay0_def animate0_def startOr_def Let_def)


lemma rhythmEffect_state:
  "data (rhythmEffect now st) = data st"
  "isPlaying (rhythmEffect now st) = isPlaying st"
  "currentTime (rhythmEffect now st) = currentTime st"
  "isLoadingModel (rhythmEffect now st) = isLoadingModel st"
  by (simp_all add: rhythmEffect_def Let_def)

lemma playingChanged_state:
  "data (playingChanged now st) = data st"
  "isPlaying (playingChanged now st) = isPlaying st"
  "currentTime (playingChanged now st) = currentTime st"
  by (simp_all add: playingChanged_def isPlayingEffect_def rhythmEffect_state)

section \<open>Loading a recording\<close>

text \<open>
  C8 (as the code has it). Loading a model replaces the held recording by the fetched
  one as it is: the rhythm track is the fetched list, in its order, nothing sorted and
  nothing dropped, and the sounds that the next play hands to the scheduler carry the same
  timestamps in the same order. Loading stops playback and resets the position to \<open>0\<close>.
\<close>

theorem load_keeps_the_list:
  assumes "availableModels st \<noteq> []" and "\<not> isLoadingModel st"
  shows "rhythmTrack (data (loadModelByIndex now index (Some modelData) st)) =
           rhythmTrack modelData \<and>
         duration (data (loadModelByIndex now index (Some modelData) st)) = duration modelData \<and>
         map time_sound (map toScheduledSound
             (rhythmTrack (data (loadModelByIndex now index (Some modelData) st)))) =
           map timestamp (rhythmTrack modelData) \<and>
         \<not> isPlaying (loadModelByIndex now index (Some modelData) st) \<and>
         currentTime (loadModelByIndex now index (Some modelData) st) = 0"
proof -
  have d: "data (loadModelByIndex now index (Some modelData) st) = modelData"
    and p: "\<not> isPlaying (loadModelByIndex now index (Some modelData) st)"
    and c: "currentTime (loadModelByIndex now index (Some modelData) st) = 0"
    using assms
    by (simp_all add: loadModelByIndex_def Let_def rhythmEffect_state playingChanged_state)
  have "map time_sound (map toScheduledSound xs) = map timestamp xs" for xs
    by (simp add: toScheduledSound_def)
  then show ?thesis using p c by (simp add: d)
qed

theorem load_keeps_the_list_witness:
  "availableModels (mountStudio \<lparr>duration = 1, rhythmTrack = []\<rparr> [''T01'']) \<noteq> [] \<and>
   \<not> isLoadingModel (mountStudio \<lparr>duration = 1, rhythmTrack = []\<rparr> [''T01'']) \<and>
   rhythmTrack (data (loadModelByIndex 0 0 (Some PRO_SWING_DATA)
     (mountStudio \<lparr>duration = 1, rhythmTrack = []\<rparr> [''T01'']))) = rhythmTrack PRO_SWING_DATA"
proof -
  have h1: "availableModels (mountStudio \<lparr>duration = 1, rhythmTrack = []\<rparr> [''T01'']) \<noteq> []"
    and h2: "\<not> isLoadingModel (mountStudio \<lparr>duration = 1, rhythmTrack = []\<rparr> [''T01''])"
    by (simp_all add: mountStudio_def)
  show ?thesis
    using load_keeps_the_list [OF h1 h2, of 0 0 PRO_SWING_DATA] h1 h2 by simp
qed

text \<open>
  A fetched track with timestamps \<open>2, -1, 9.9\<close> and duration \<open>2.5\<close> is held unchanged:
  unsorted, with a negative timestamp and one past the duration.
\<close>

theorem load_unsorted_counterexample:
  "map timestamp (rhythmTrack (data (loadModelByIndex 0 0
     (Some \<lparr>duration = 2.5, rhythmTrack =
        [\<lparr>id_node = ''a'', timestamp = 2, intensity_node = Some 0.8, type_node = KICK,
          label_node = ''late''\<rparr>,
         \<lparr>id_node = ''b'', timestamp = - 1, intensity_node = Some 0.9, type_node = BASS,
          label_node = ''negative''\<rparr>,
         \<lparr>id_node = ''c'', timestamp = 9.9, intensity_node = Some 0.9, type_node = CRASH,
          label_node = ''past the end''\<rparr>]\<rparr>)
     (mountStudio PRO_SWING_DATA [''T01''])))) = [2, - 1, 9.9] \<and>
   \<not> sorted [2, - 1, 9.9 :: real] \<and> (- 1 :: real) < 0 \<and> (9.9 :: real) > 2.5"
  by (simp add: loadModelByIndex_def Let_def rhythmEffect_state playingChanged_state mountStudio_def)

end
